theory Spec2Isabelle
  imports Complex_Main "HOL-Library.Word"
begin

section \<open>Python values, exceptions and results\<close>

text \<open>
  The model follows \<^verbatim>\<open>src/backend/uniswap-backend.py\<close>. A Python exception is a value of
  type \<open>error\<close>; a computation that may raise returns \<open>error + 'a\<close> with \<open>Inl\<close> for
  the raised exception. \<open>RPCError\<close> stands for whatever a call into the node, a contract
  or the DynamoDB client raises. An \<open>HTTPException\<close> keeps its status code and its detail;
  a detail built by an f-string \<^verbatim>\<open>f"prefix: {e}"\<close> keeps the prefix and the exception \<open>e\<close>.
\<close>

datatype error =
    ValueError string
  | OverflowError
  | IndexError
  | KeyError
  | AttributeError
  | ZeroDivisionError
  | RPCError string
  | HTTPException int detail
and detail =
    Text string
  | Caused string error

type_synonym 'a result = "error + 'a"

definition and_then :: "'a result \<Rightarrow> ('a \<Rightarrow> 'b result) \<Rightarrow> 'b result" where
  "and_then r f = (case r of Inl e \<Rightarrow> Inl e | Inr x \<Rightarrow> f x)"

text \<open>A list comprehension over a function that may raise: the first exception wins.\<close>

fun map_result :: "('a \<Rightarrow> 'b result) \<Rightarrow> 'a list \<Rightarrow> 'b list result" where
  "map_result f [] = Inr []"
| "map_result f (x # xs) =
     (case f x of
        Inl e \<Rightarrow> Inl e
      | Inr y \<Rightarrow> (case map_result f xs of Inl e \<Rightarrow> Inl e | Inr ys \<Rightarrow> Inr (y # ys)))"

type_synonym byte = "8 word"

datatype pyval = VInt int | VStr string | VBytes "byte list" | VNone

text \<open>A transaction is a Python dict from field names to values.\<close>

type_synonym tx_dict = "string \<rightharpoonup> pyval"

definition setdefault :: "tx_dict \<Rightarrow> string \<Rightarrow> pyval \<Rightarrow> tx_dict" where
  "setdefault tx k v = (case tx k of None \<Rightarrow> tx(k \<mapsto> v) | Some _ \<Rightarrow> tx)"

text \<open>
  Python's \<^verbatim>\<open>a or b\<close>: \<^verbatim>\<open>None\<close>, the empty string and \<^verbatim>\<open>0\<close> are falsy, so \<^verbatim>\<open>b\<close> is taken.
\<close>

definition or_str :: "string option \<Rightarrow> string \<Rightarrow> string" where
  "or_str a b = (case a of None \<Rightarrow> b | Some t \<Rightarrow> if t = [] then b else t)"

definition or_int :: "int option \<Rightarrow> int \<Rightarrow> int" where
  "or_int a b = (case a of None \<Rightarrow> b | Some i \<Rightarrow> if i = 0 then b else i)"

section \<open>\<^verbatim>\<open>str(int)\<close> and \<^verbatim>\<open>int(str)\<close>\<close>

definition digit_char :: "nat \<Rightarrow> char" where
  "digit_char d = ''0123456789'' ! d"

fun nat_str :: "nat \<Rightarrow> string" where
  "nat_str n = (if n < 10 then [digit_char n] else nat_str (n div 10) @ [digit_char (n mod 10)])"

declare nat_str.simps [simp del]

definition py_str :: "int \<Rightarrow> string" where
  "py_str i = (if i < 0 then CHR ''-'' # nat_str (nat (- i)) else nat_str (nat i))"

text \<open>
  \<^verbatim>\<open>int(s)\<close> on a string whose characters are the code points below 256: surrounding
  whitespace is stripped (tab to carriage return, the separators \<open>0x1C\<close> to \<open>0x1F\<close>, space,
  \<open>0x85\<close> and \<open>0xA0\<close>), one sign is allowed, and the digits may be grouped by single
  underscores. Anything else is a \<^verbatim>\<open>ValueError\<close> (whose message, which quotes the literal,
  is shortened here). Code points from 256 on, among them further whitespace and digits,
  and the interpreter's limit on the number of digits of a conversion are not modelled.
\<close>

definition is_space :: "char \<Rightarrow> bool" where
  "is_space c =
     (c \<in> set [CHR '' '', CHR 0x09, CHR 0x0A, CHR 0x0B, CHR 0x0C, CHR 0x0D,
                CHR 0x1C, CHR 0x1D, CHR 0x1E, CHR 0x1F, CHR 0x85, CHR 0xA0])"

definition strip :: "string \<Rightarrow> string" where
  "strip s = rev (dropWhile is_space (rev (dropWhile is_space s)))"

definition is_digit :: "char \<Rightarrow> bool" where
  "is_digit c = (48 \<le> (of_char c :: nat) \<and> (of_char c :: nat) \<le> 57)"

definition digit_val :: "char \<Rightarrow> nat" where
  "digit_val c = of_char c - 48"

fun digits_ok :: "string \<Rightarrow> bool" where
  "digits_ok [] = False"
| "digits_ok [c] = is_digit c"
| "digits_ok (c # d # cs) =
     (is_digit c \<and> (if d = CHR ''_'' then digits_ok cs else digits_ok (d # cs)))"

definition digits_val :: "string \<Rightarrow> nat" where
  "digits_val s =
     foldl (\<lambda>acc c. 10 * acc + digit_val c) 0 (filter (\<lambda>c. c \<noteq> CHR ''_'') s)"

definition py_int :: "string \<Rightarrow> int result" where
  "py_int s =
     (let t = strip s;
          (neg, ds) = (case t of
                         c # r \<Rightarrow> if c = CHR ''-'' then (True, r)
                                  else if c = CHR ''+'' then (False, r) else (False, t)
                       | [] \<Rightarrow> (False, t))
      in if digits_ok ds
         then Inr (if neg then - int (digits_val ds) else int (digits_val ds))
         else Inl (ValueError ''invalid literal for int() with base 10''))"

section \<open>Addresses and bytes (the library calls of the path encoder)\<close>

text \<open>
  \<^verbatim>\<open>Web3.to_checksum_address\<close> accepts a string of 40 hexadecimal digits with an optional
  \<^verbatim>\<open>0x\<close>/\<^verbatim>\<open>0X\<close> prefix and raises \<^verbatim>\<open>ValueError\<close> on anything else. Its result is the
  address with a \<^verbatim>\<open>0x\<close> prefix; the Keccak-derived letter case of the checksum is not
  computed here (the digits are kept in lower case), which no caller in this file can
  observe: \<^verbatim>\<open>Web3.to_bytes(hexstr=...)\<close> reads hexadecimal digits in either case.
\<close>

definition is_hex_digit :: "char \<Rightarrow> bool" where
  "is_hex_digit c =
     (let n = (of_char c :: nat)
      in (48 \<le> n \<and> n \<le> 57) \<or> (97 \<le> n \<and> n \<le> 102) \<or> (65 \<le> n \<and> n \<le> 70))"

definition hex_digit_val :: "char \<Rightarrow> nat" where
  "hex_digit_val c =
     (let n = (of_char c :: nat)
      in if 48 \<le> n \<and> n \<le> 57 then n - 48
         else if 97 \<le> n \<and> n \<le> 102 then n - 87
         else if 65 \<le> n \<and> n \<le> 70 then n - 55
         else 0)"

definition lower_char :: "char \<Rightarrow> char" where
  "lower_char c =
     (let n = (of_char c :: nat)
      in if 65 \<le> n \<and> n \<le> 90 then ''abcdefghijklmnopqrstuvwxyz'' ! (n - 65) else c)"

definition remove_0x_prefix :: "string \<Rightarrow> string" where
  "remove_0x_prefix s =
     (case s of
        c0 # c1 # r \<Rightarrow> if c0 = CHR ''0'' \<and> (c1 = CHR ''x'' \<or> c1 = CHR ''X'') then r else s
      | _ \<Rightarrow> s)"

definition is_address :: "string \<Rightarrow> bool" where
  "is_address s =
     (length (remove_0x_prefix s) = 40 \<and> list_all is_hex_digit (remove_0x_prefix s))"

definition to_checksum_address :: "string \<Rightarrow> string result" where
  "to_checksum_address s =
     (if is_address s then Inr (''0x'' @ map lower_char (remove_0x_prefix s))
      else Inl (ValueError ''not a hex address''))"

fun hex_pairs :: "string \<Rightarrow> byte list" where
  "hex_pairs (a # b # r) = of_nat (16 * hex_digit_val a + hex_digit_val b) # hex_pairs r"
| "hex_pairs _ = []"

text \<open>\<^verbatim>\<open>Web3.to_bytes(hexstr=s)\<close>: an odd number of digits is padded with a leading zero.\<close>

definition to_bytes_hexstr :: "string \<Rightarrow> byte list result" where
  "to_bytes_hexstr s =
     (let h = remove_0x_prefix s;
          h' = (if odd (length h) then CHR ''0'' # h else h)
      in if list_all is_hex_digit h' then Inr (hex_pairs h')
         else Inl (ValueError ''not a hex string''))"

text \<open>\<^verbatim>\<open>int(f).to_bytes(3, 'big')\<close>: raises \<^verbatim>\<open>OverflowError\<close> outside \<open>0 \<le> f < 2^24\<close>.\<close>

definition to_bytes_3_big :: "int \<Rightarrow> byte list result" where
  "to_bytes_3_big f =
     (if f < 0 \<or> 16777216 \<le> f then Inl OverflowError
      else Inr [of_int (f div 65536), of_int (f div 256), of_int f])"

text \<open>List indexing as Python has it for the indices used here.\<close>

definition py_nth :: "'a list \<Rightarrow> nat \<Rightarrow> 'a result" where
  "py_nth xs i = (if i < length xs then Inr (xs ! i) else Inl IndexError)"

definition py_last :: "'a list \<Rightarrow> 'a result" where
  "py_last xs = (if xs = [] then Inl IndexError else Inr (last xs))"

section \<open>V3 path encoding\<close>

text \<open>
  \<^verbatim>\<open>encode_v3_path\<close> (lines 282-290). The loop \<^verbatim>\<open>for i in range(len(fees))\<close> is
  \<open>encode_loop\<close>: \<open>i\<close> is the loop index, the fourth argument the number of iterations
  left, and the last one the bytes accumulated in \<^verbatim>\<open>path\<close>.
\<close>

definition token_bytes :: "string \<Rightarrow> byte list result" where
  "token_bytes t = and_then (to_checksum_address t) to_bytes_hexstr"

fun encode_loop :: "string list \<Rightarrow> int list \<Rightarrow> nat \<Rightarrow> nat \<Rightarrow> byte list \<Rightarrow> byte list result" where
  "encode_loop tokens fees i 0 path = Inr path"
| "encode_loop tokens fees i (Suc k) path =
     and_then (py_nth tokens i) (\<lambda>t.
     and_then (token_bytes t) (\<lambda>tb.
     and_then (py_nth fees i) (\<lambda>f.
     and_then (to_bytes_3_big f) (\<lambda>fb.
     encode_loop tokens fees (Suc i) k (path @ tb @ fb)))))"

definition encode_v3_path :: "string list \<Rightarrow> int list \<Rightarrow> byte list result" where
  "encode_v3_path tokens fees =
     (if int (length fees) \<noteq> int (length tokens) - 1
      then Inl (ValueError ''fees length must equal tokens length - 1'')
      else and_then (encode_loop tokens fees 0 (length fees) []) (\<lambda>path.
           and_then (py_last tokens) (\<lambda>t.
           and_then (token_bytes t) (\<lambda>tb. Inr (path @ tb)))))"

text \<open>
  Modelled from the spec: the layout of a route, written without the loop: each token's
  raw 20 bytes followed by its fee tier in three big-endian bytes, then the last token.
\<close>

definition address_raw :: "string \<Rightarrow> byte list" where
  "address_raw t = hex_pairs (remove_0x_prefix t)"

definition fee_be3 :: "int \<Rightarrow> byte list" where
  "fee_be3 f = [of_int (f div 65536), of_int (f div 256), of_int f]"

fun path_layout :: "string list \<Rightarrow> int list \<Rightarrow> byte list" where
  "path_layout [] fees = []"
| "path_layout [t] fees = address_raw t"
| "path_layout (t # ts) [] = address_raw t"
| "path_layout (t # ts) (f # fs) = address_raw t @ fee_be3 f @ path_layout ts fs"

text \<open>
  Modelled from the spec: the test-only decoding helper of the round-trip property is not
  in the repository. It splits a path into 20-byte tokens and 3-byte big-endian tiers.
\<close>

definition be3_value :: "byte list \<Rightarrow> int" where
  "be3_value bs = foldl (\<lambda>acc b. 256 * acc + uint b) 0 bs"

fun decode_hops :: "nat \<Rightarrow> byte list \<Rightarrow> byte list list \<times> int list" where
  "decode_hops 0 bs = ([], [])"
| "decode_hops (Suc n) bs =
     (let (ts, fs) = decode_hops n (drop 23 bs)
      in (take 20 (drop 3 bs) # ts, be3_value (take 3 bs) # fs))"

definition decode_v3_path :: "byte list \<Rightarrow> byte list list \<times> int list" where
  "decode_v3_path bs =
     (let (ts, fs) = decode_hops ((length bs - 20) div 23) (drop 20 bs)
      in (take 20 bs # ts, fs))"

section \<open>True division of integers\<close>

text \<open>
  \<^verbatim>\<open>int(a / b)\<close> on Python integers: \<^verbatim>\<open>/\<close> returns the IEEE-754 double nearest to the exact
  quotient (ties to even), or raises \<^verbatim>\<open>OverflowError\<close> when that is not finite, and \<^verbatim>\<open>int\<close>
  truncates towards zero. A positive double is kept as a pair \<open>(m, e)\<close> standing for
  \<open>m * 2^e\<close> with a significand of at most 53 bits and \<open>e \<ge> -1074\<close>.
\<close>

fun bit_length :: "nat \<Rightarrow> nat" where
  "bit_length n = (if n = 0 then 0 else Suc (bit_length (n div 2)))"

declare bit_length.simps [simp del]

text \<open>The exponent \<open>k\<close> with \<open>2^k \<le> a / b < 2^(k+1)\<close>, for positive \<open>a\<close> and \<open>b\<close>.\<close>

definition quotient_exponent :: "nat \<Rightarrow> nat \<Rightarrow> int" where
  "quotient_exponent a b =
     (let d = int (bit_length a) - int (bit_length b)
      in if (if 0 \<le> d then b * 2 ^ nat d \<le> a else b \<le> a * 2 ^ nat (- d)) then d else d - 1)"

definition round_half_even :: "nat \<Rightarrow> nat \<Rightarrow> nat" where
  "round_half_even num den =
     (let q = num div den; r = num mod den
      in if den < 2 * r \<or> (2 * r = den \<and> odd q) then q + 1 else q)"

definition true_divide :: "nat \<Rightarrow> nat \<Rightarrow> (nat \<times> int) result" where
  "true_divide a b =
     (if b = 0 then Inl ZeroDivisionError
      else if a = 0 then Inr (0, 0)
      else let e = max (quotient_exponent a b - 52) (- 1074);
               m = (if 0 \<le> e then round_half_even a (b * 2 ^ nat e)
                    else round_half_even (a * 2 ^ nat (- e)) b)
           in if 0 \<le> e \<and> 2 ^ 1024 \<le> m * 2 ^ nat e then Inl OverflowError else Inr (m, e))"

definition float_trunc :: "nat \<times> int \<Rightarrow> nat" where
  "float_trunc f = (case f of (m, e) \<Rightarrow> if 0 \<le> e then m * 2 ^ nat e else m div 2 ^ nat (- e))"

definition int_of_quotient :: "int \<Rightarrow> int \<Rightarrow> int result" where
  "int_of_quotient a b =
     and_then (true_divide (nat \<bar>a\<bar>) (nat \<bar>b\<bar>)) (\<lambda>f. Inr (sgn a * sgn b * int (float_trunc f)))"

section \<open>The node, the configuration and the fee estimate\<close>

text \<open>
  The module's globals that the functions read are the fields of \<open>config\<close>. The object
  \<^verbatim>\<open>w3\<close> is a \<open>node\<close>: each field is what the corresponding RPC call returns or raises
  when it is made.
\<close>

record config =
  CHAIN_ID :: int
  PRIVATE_KEY :: "string option"
  acct :: "string option"
  DEFAULT_RECIPIENT :: "string option"
  PRIVATE_RPC_URL :: "string option"
  RATE_LIMIT :: int
  RATE_WINDOW :: int

record fee_hist =
  baseFeePerGas :: "int list"
  reward :: "int list list option"

record node =
  fee_history :: "fee_hist result"
  gas_price :: "int result"
  get_transaction_count :: "string \<Rightarrow> int result"
  estimate_gas :: "tx_dict \<Rightarrow> int result"
  send_raw_transaction :: "byte list \<Rightarrow> string result"

definition gwei :: int where
  "gwei = 1000000000"

text \<open>\<^verbatim>\<open>suggest_fees\<close> (lines 239-250): any exception of the first block gives the fallback.\<close>

definition mean_tip :: "int list list \<Rightarrow> int result" where
  "mean_tip rewards =
     and_then (map_result (\<lambda>r. py_nth r 0) rewards) (\<lambda>firsts.
     int_of_quotient (sum_list firsts) (max (int (length rewards)) 1))"

definition fees_from_history :: "node \<Rightarrow> (int \<times> int) result" where
  "fees_from_history w =
     and_then (fee_history w) (\<lambda>hist.
     and_then (py_last (baseFeePerGas hist)) (\<lambda>base.
     let rewards = (case reward hist of None \<Rightarrow> [] | Some rs \<Rightarrow> rs)
     in and_then (if rewards \<noteq> [] then mean_tip rewards else Inr gwei) (\<lambda>tip.
        Inr (base + tip * 2, tip))))"

definition suggest_fees :: "node \<Rightarrow> (int \<times> int) result" where
  "suggest_fees w =
     (case fees_from_history w of
        Inr r \<Rightarrow> Inr r
      | Inl _ \<Rightarrow> and_then (gas_price w) (\<lambda>gp. Inr (gp, gwei)))"

section \<open>Filling a transaction\<close>

text \<open>
  \<^verbatim>\<open>with_fees_and_nonce\<close> (lines 252-259) mutates the dict it is given and returns it. The
  model returns the dict as the call leaves it, with the exception if one was raised on
  the way: the default of each \<^verbatim>\<open>setdefault\<close> is computed before the call, so a failing
  transaction-count query raises after \<^verbatim>\<open>chainId\<close> was stored.
\<close>

definition with_fees_and_nonce :: "config \<Rightarrow> node \<Rightarrow> tx_dict \<Rightarrow> tx_dict \<times> error option" where
  "with_fees_and_nonce cfg w tx =
     (case suggest_fees w of
        Inl e \<Rightarrow> (tx, Some e)
      | Inr (max_fee, tip) \<Rightarrow>
          let tx1 = setdefault tx ''chainId'' (VInt (CHAIN_ID cfg))
          in (case acct cfg of
                None \<Rightarrow> (tx1, Some AttributeError)
              | Some a \<Rightarrow>
                  (case get_transaction_count w a of
                     Inl e \<Rightarrow> (tx1, Some e)
                   | Inr n \<Rightarrow>
                       let tx2 = setdefault tx1 ''nonce'' (VInt n);
                           tx3 = setdefault tx2 ''type'' (VInt 2);
                           tx4 = setdefault tx3 ''maxFeePerGas'' (VInt max_fee);
                           tx5 = setdefault tx4 ''maxPriorityFeePerGas'' (VInt tip)
                       in (tx5, None))))"

text \<open>\<^verbatim>\<open>estimate_and_fill_gas\<close> (lines 261-267): the handler only logs, so the call returns.\<close>

definition estimate_and_fill_gas :: "node \<Rightarrow> tx_dict \<Rightarrow> tx_dict" where
  "estimate_and_fill_gas w tx =
     (case estimate_gas w tx of
        Inl e \<Rightarrow> tx
      | Inr gas \<Rightarrow> setdefault tx ''gas'' (VInt (gas * 12 div 10)))"

section \<open>Signing and submission\<close>

text \<open>
  The rest of the world one request meets: the node behind \<^verbatim>\<open>w3\<close>, what constructing a
  provider for the private relay URL gives, the signer, the clock, the read-only quoter
  calls and \<^verbatim>\<open>build_transaction\<close> of a router function with its arguments.
\<close>

datatype contract_call =
    SwapExactTokensForTokens int int "string list" string int
  | SwapExactTokensForTokensSupportingFeeOnTransferTokens int int "string list" string int
  | ExactInputSingle string string int string int int int int

record world =
  w3 :: node
  relay :: "string \<Rightarrow> node result"
  sign_transaction :: "tx_dict \<Rightarrow> string option \<Rightarrow> byte list result"
  time_now :: int
  getAmountsOut :: "int \<Rightarrow> string list \<Rightarrow> int list result"
  quoteExactInputSingle :: "string \<Rightarrow> string \<Rightarrow> int \<Rightarrow> int \<Rightarrow> int \<Rightarrow> int result"
  build_transaction :: "contract_call \<Rightarrow> tx_dict \<Rightarrow> tx_dict result"

datatype endpoint = Primary | PrivateRelay

text \<open>A submission is one call of \<^verbatim>\<open>send_raw_transaction\<close>: where it went and what was sent.\<close>

type_synonym submission = "endpoint \<times> byte list"

text \<open>
  \<^verbatim>\<open>send_signed\<close> (lines 269-279). The provider is chosen first: the relay when
  \<^verbatim>\<open>PRIVATE_RPC_URL\<close> is set and its provider can be constructed, \<^verbatim>\<open>w3\<close> otherwise (the
  handler of the construction only logs). The result is the list of submissions made and
  the hash returned or the exception raised.
\<close>

definition choose_provider :: "config \<Rightarrow> world \<Rightarrow> endpoint \<times> node" where
  "choose_provider cfg wld =
     (case PRIVATE_RPC_URL cfg of
        None \<Rightarrow> (Primary, w3 wld)
      | Some url \<Rightarrow>
          if url = [] then (Primary, w3 wld)
          else (case relay wld url of
                  Inl e \<Rightarrow> (Primary, w3 wld)
                | Inr n \<Rightarrow> (PrivateRelay, n)))"

definition send_signed :: "config \<Rightarrow> world \<Rightarrow> tx_dict \<Rightarrow> submission list \<times> string result" where
  "send_signed cfg wld tx =
     (case choose_provider cfg wld of
        (ep, provider) \<Rightarrow>
          (case sign_transaction wld tx (PRIVATE_KEY cfg) of
             Inl e \<Rightarrow> ([], Inl e)
           | Inr raw \<Rightarrow> ([(ep, raw)], send_raw_transaction provider raw)))"

text \<open>
  The three calls every handler makes on a built transaction (lines 450-452, 502-504):
  \<^verbatim>\<open>with_fees_and_nonce\<close>, \<^verbatim>\<open>estimate_and_fill_gas\<close>, \<^verbatim>\<open>send_signed\<close>.
\<close>

definition fill_and_send :: "config \<Rightarrow> world \<Rightarrow> tx_dict \<Rightarrow> submission list \<times> string result" where
  "fill_and_send cfg wld tx =
     (case with_fees_and_nonce cfg (w3 wld) tx of
        (tx1, Some e) \<Rightarrow> ([], Inl e)
      | (tx1, None) \<Rightarrow> send_signed cfg wld (estimate_and_fill_gas (w3 wld) tx1))"

section \<open>Rate limiting\<close>

















section \<open>The swap handlers\<close>

record SwapV2Body =
  v2_amount_in :: string
  v2_amount_out_min :: "string option"
  v2_path :: "string list"
  v2_to :: "string option"
  v2_deadline :: "int option"
  v2_slippage_bps :: int
  v2_support_fee_on_transfer :: bool

record SwapV3Body =
  v3_token_in :: string
  v3_token_out :: string
  v3_fee :: int
  v3_amount_in :: string
  v3_amount_out_min :: "string option"
  v3_recipient :: "string option"
  v3_deadline :: "int option"
  v3_sqrt_price_limit_x96 :: int
  v3_slippage_bps :: int

definition now_plus :: "world \<Rightarrow> int \<Rightarrow> int" where
  "now_plus wld seconds = time_now wld + seconds"

definition no_private_key :: error where
  "no_private_key = HTTPException 400 (Text ''Server has no PRIVATE_KEY configured'')"

text \<open>An exception caught by a handler's \<^verbatim>\<open>except Exception as e\<close> and raised again as 400.\<close>

definition failed_400 :: "string \<Rightarrow> 'a result \<Rightarrow> 'a result" where
  "failed_400 what r =
     (case r of Inl e \<Rightarrow> Inl (HTTPException 400 (Caused what e)) | Inr x \<Rightarrow> Inr x)"

definition sender :: "string \<Rightarrow> tx_dict" where
  "sender a = [''from'' \<mapsto> VStr a]"

definition submit_400 ::
  "string \<Rightarrow> config \<Rightarrow> world \<Rightarrow> string \<Rightarrow> contract_call \<Rightarrow> submission list \<times> string result" where
  "submit_400 what cfg wld a call =
     (case build_transaction wld call (sender a) of
        Inl e \<Rightarrow> ([], failed_400 what (Inl e))
      | Inr tx \<Rightarrow> (case fill_and_send cfg wld tx of (subs, r) \<Rightarrow> (subs, failed_400 what r)))"

text \<open>
  \<^verbatim>\<open>v2_swap\<close> (lines 427-456). \<open>v2_amount_out_min_str\<close> is the string in
  \<^verbatim>\<open>amount_out_min\<close> after lines 434-438; \<open>v2_router_call\<close> is the router function with
  the arguments of lines 440-447, whose evaluation is already inside the \<^verbatim>\<open>try\<close>.
\<close>

definition v2_amount_out_min_str :: "world \<Rightarrow> SwapV2Body \<Rightarrow> string result" where
  "v2_amount_out_min_str wld body =
     (case v2_amount_out_min body of
        Some s \<Rightarrow> Inr s
      | None \<Rightarrow>
          and_then (py_int (v2_amount_in body)) (\<lambda>amount_in.
          and_then (map_result to_checksum_address (v2_path body)) (\<lambda>path.
          and_then (getAmountsOut wld amount_in path) (\<lambda>amounts.
          and_then (py_last amounts) (\<lambda>quoted_out.
          Inr (py_str (quoted_out * (10000 - v2_slippage_bps body) div 10000)))))))"

definition v2_router_call ::
  "SwapV2Body \<Rightarrow> string \<Rightarrow> string \<Rightarrow> int \<Rightarrow> contract_call result" where
  "v2_router_call body amount_out_min to_addr deadline =
     and_then (py_int (v2_amount_in body)) (\<lambda>amount_in.
     and_then (py_int amount_out_min) (\<lambda>min_out.
     and_then (map_result to_checksum_address (v2_path body)) (\<lambda>path.
     Inr ((if v2_support_fee_on_transfer body
           then SwapExactTokensForTokensSupportingFeeOnTransferTokens
           else SwapExactTokensForTokens) amount_in min_out path to_addr deadline))))"

definition v2_swap :: "config \<Rightarrow> world \<Rightarrow> SwapV2Body \<Rightarrow> submission list \<times> string result" where
  "v2_swap cfg wld body =
     (case acct cfg of
        None \<Rightarrow> ([], Inl no_private_key)
      | Some a \<Rightarrow>
          (case to_checksum_address (or_str (v2_to body) (or_str (DEFAULT_RECIPIENT cfg) a)) of
             Inl e \<Rightarrow> ([], Inl e)
           | Inr to_addr \<Rightarrow>
               let deadline = or_int (v2_deadline body) (now_plus wld 300)
               in (case v2_amount_out_min_str wld body of
                     Inl e \<Rightarrow> ([], Inl e)
                   | Inr amount_out_min \<Rightarrow>
                       (case v2_router_call body amount_out_min to_addr deadline of
                          Inl e \<Rightarrow> ([], failed_400 ''v2 swap failed'' (Inl e))
                        | Inr call \<Rightarrow> submit_400 ''v2 swap failed'' cfg wld a call))))"

text \<open>
  \<^verbatim>\<open>v3_swap\<close> (lines 472-508). The tuple \<^verbatim>\<open>params\<close> is built before the \<^verbatim>\<open>try\<close>, so an
  exception of its conversions is not turned into a 400.
\<close>

definition v3_amount_out_min_str :: "world \<Rightarrow> SwapV3Body \<Rightarrow> string result" where
  "v3_amount_out_min_str wld body =
     (case v3_amount_out_min body of
        Some s \<Rightarrow> Inr s
      | None \<Rightarrow>
          and_then (to_checksum_address (v3_token_in body)) (\<lambda>token_in.
          and_then (to_checksum_address (v3_token_out body)) (\<lambda>token_out.
          and_then (py_int (v3_amount_in body)) (\<lambda>amount_in.
          and_then (quoteExactInputSingle wld token_in token_out (v3_fee body) amount_in
                      (v3_sqrt_price_limit_x96 body)) (\<lambda>out_amt.
          Inr (py_str (out_amt * (10000 - v3_slippage_bps body) div 10000)))))))"

definition v3_params ::
  "config \<Rightarrow> world \<Rightarrow> SwapV3Body \<Rightarrow> string \<Rightarrow> string \<Rightarrow> contract_call result" where
  "v3_params cfg wld body a amount_out_min =
     and_then (to_checksum_address (v3_token_in body)) (\<lambda>token_in.
     and_then (to_checksum_address (v3_token_out body)) (\<lambda>token_out.
     and_then (to_checksum_address
                 (or_str (v3_recipient body) (or_str (DEFAULT_RECIPIENT cfg) a))) (\<lambda>recipient.
     and_then (py_int (v3_amount_in body)) (\<lambda>amount_in.
     and_then (py_int amount_out_min) (\<lambda>min_out.
     Inr (ExactInputSingle token_in token_out (v3_fee body) recipient
            (or_int (v3_deadline body) (now_plus wld 300)) amount_in min_out
            (v3_sqrt_price_limit_x96 body)))))))"

definition v3_swap :: "config \<Rightarrow> world \<Rightarrow> SwapV3Body \<Rightarrow> submission list \<times> string result" where
  "v3_swap cfg wld body =
     (case acct cfg of
        None \<Rightarrow> ([], Inl no_private_key)
      | Some a \<Rightarrow>
          (case v3_amount_out_min_str wld body of
             Inl e \<Rightarrow> ([], Inl e)
           | Inr amount_out_min \<Rightarrow>
               (case v3_params cfg wld body a amount_out_min of
                  Inl e \<Rightarrow> ([], Inl e)
                | Inr call \<Rightarrow> submit_400 ''v3 swap failed'' cfg wld a call)))"

text \<open>
  The minimum output the specification asks of the slippage guard, as a floor of the
  exact quotient.
\<close>

definition min_out_spec :: "int \<Rightarrow> int \<Rightarrow> int" where
  "min_out_spec quoted_out tolerance_bps =
     \<lfloor>(of_int (quoted_out * (10000 - tolerance_bps)) :: real) / 10000\<rfloor>"

section \<open>Consecutive builds\<close>

text \<open>
  The nonce a handler's transaction carries after \<^verbatim>\<open>with_fees_and_nonce\<close>, and the nonces
  of consecutive builds in one process, each on a freshly built transaction and against
  the node as it answers at that moment.
\<close>

definition built_nonce :: "config \<Rightarrow> node \<Rightarrow> tx_dict \<Rightarrow> pyval option result" where
  "built_nonce cfg w tx =
     (case with_fees_and_nonce cfg w tx of
        (tx', None) \<Rightarrow> Inr (tx' ''nonce'')
      | (tx', Some e) \<Rightarrow> Inl e)"

definition build_nonces :: "config \<Rightarrow> (node \<times> tx_dict) list \<Rightarrow> pyval option result list" where
  "build_nonces cfg builds = map (\<lambda>(w, tx). built_nonce cfg w tx) builds"

section \<open>Example inputs\<close>

definition token_a :: string where
  "token_a = ''0xC02aaA39b223FE8D0A0e5C4F27eAD9083C756Cc2''"

definition token_b :: string where
  "token_b = ''7a250d5630B4cF539739dF2C5dAcb4c659F2488D''"

definition signer_address :: string where
  "signer_address = ''0xE592427A0AEce92De3Edee1F18E0157C05861564''"

definition example_config :: config where
  "example_config =
     \<lparr>CHAIN_ID = 1, PRIVATE_KEY = Some ''0xabc'', acct = Some signer_address,
      DEFAULT_RECIPIENT = None, PRIVATE_RPC_URL = None, RATE_LIMIT = 3, RATE_WINDOW = 60\<rparr>"

definition relay_config :: config where
  "relay_config = example_config\<lparr>PRIVATE_RPC_URL := Some ''https://relay.example''\<rparr>"

text \<open>A node whose account has transaction count 7 and whose calls all succeed.\<close>

definition example_node :: node where
  "example_node =
     \<lparr>fee_history = Inr \<lparr>baseFeePerGas = [100, 110], reward = Some [[4], [6]]\<rparr>,
      gas_price = Inr 90,
      get_transaction_count = (\<lambda>a. Inr 7),
      estimate_gas = (\<lambda>tx. Inr 100000),
      send_raw_transaction = (\<lambda>raw. Inr ''0xaa'')\<rparr>"

definition relay_node :: node where
  "relay_node = example_node\<lparr>send_raw_transaction := (\<lambda>raw. Inl (RPCError ''relay down''))\<rparr>"

text \<open>
  A world in which every external call succeeds: the quoters return twice the amount in,
  and a built transaction has the router as \<^verbatim>\<open>to\<close> and the sender it was given.
\<close>

definition example_world :: world where
  "example_world =
     \<lparr>w3 = example_node,
      relay = (\<lambda>url. Inr relay_node),
      sign_transaction = (\<lambda>tx key. Inr [1, 2, 3]),
      time_now = 1700000000,
      getAmountsOut = (\<lambda>amount_in path. Inr [amount_in, 2 * amount_in]),
      quoteExactInputSingle = (\<lambda>token_in token_out fee amount_in limit. Inr (2 * amount_in)),
      build_transaction = (\<lambda>call tx. Inr (tx(''to'' \<mapsto> VStr ''router'')))\<rparr>"

definition example_tx :: tx_dict where
  "example_tx = [''from'' \<mapsto> VStr signer_address, ''gas'' \<mapsto> VInt 21000, ''nonce'' \<mapsto> VInt 3]"

definition fresh_tx :: tx_dict where
  "fresh_tx = [''from'' \<mapsto> VStr signer_address, ''to'' \<mapsto> VStr ''router'']"

definition failing_estimate_node :: node where
  "failing_estimate_node =
     example_node\<lparr>estimate_gas := (\<lambda>tx. Inl (RPCError ''execution reverted''))\<rparr>"

definition no_estimate_world :: world where
  "no_estimate_world = example_world\<lparr>w3 := failing_estimate_node\<rparr>"

text \<open>Worlds whose quoter calls revert, and one whose V2 quoter returns no amounts.\<close>

definition no_quote_world :: world where
  "no_quote_world =
     example_world
       \<lparr>getAmountsOut := (\<lambda>amount_in path. Inl (RPCError ''execution reverted'')),
        quoteExactInputSingle :=
          (\<lambda>token_in token_out fee amount_in limit. Inl (RPCError ''execution reverted''))\<rparr>"

definition empty_quote_world :: world where
  "empty_quote_world = example_world\<lparr>getAmountsOut := (\<lambda>amount_in path. Inr [])\<rparr>"

definition no_build_world :: world where
  "no_build_world =
     example_world\<lparr>build_transaction := (\<lambda>call tx. Inl (RPCError ''execution reverted''))\<rparr>"

text \<open>
  The end-to-end scenario of the specification: sell 1,000,000 along two tokens at a
  tolerance of 50 basis points, no minimum given.
\<close>

definition example_v2_body :: SwapV2Body where
  "example_v2_body =
     \<lparr>v2_amount_in = ''1000000'', v2_amount_out_min = None, v2_path = [token_a, token_b],
      v2_to = None, v2_deadline = None, v2_slippage_bps = 50,
      v2_support_fee_on_transfer = False\<rparr>"

definition example_v3_body :: SwapV3Body where
  "example_v3_body =
     \<lparr>v3_token_in = token_a, v3_token_out = token_b, v3_fee = 3000,
      v3_amount_in = ''1000000'', v3_amount_out_min = None, v3_recipient = None,
      v3_deadline = None, v3_sqrt_price_limit_x96 = 0, v3_slippage_bps = 50\<rparr>"

text \<open>
  An intent with a deadline long past, nothing to sell and a one-token path, and one for
  the single-hop router with a past deadline and nothing to sell.
\<close>

definition stale_v2_body :: SwapV2Body where
  "stale_v2_body =
     \<lparr>v2_amount_in = ''0'', v2_amount_out_min = Some ''0'', v2_path = [token_a],
      v2_to = None, v2_deadline = Some 1, v2_slippage_bps = 50,
      v2_support_fee_on_transfer = False\<rparr>"

definition stale_v3_body :: SwapV3Body where
  "stale_v3_body =
     \<lparr>v3_token_in = token_a, v3_token_out = token_b, v3_fee = 3000,
      v3_amount_in = ''0'', v3_amount_out_min = Some ''0'', v3_recipient = None,
      v3_deadline = Some 1, v3_sqrt_price_limit_x96 = 0, v3_slippage_bps = 50\<rparr>"










text \<open>The fee tiers that fit three bytes.\<close>

definition fee_fits :: "int \<Rightarrow> bool" where
  "fee_fits f = (0 \<le> f \<and> f < 16777216)"

text \<open>
  Modelled from the spec: the mean of the reward samples, an exact quotient: the
  sample of a block is the first entry of its reward list.
\<close>

definition reward_mean :: "int list list \<Rightarrow> real" where
  "reward_mean rewards =
     of_int (sum_list (concat (map (take 1) rewards))) / of_int (int (length rewards))"

text \<open>A node answering the fee history query with the given base fees and rewards.\<close>

definition history_node :: "int list \<Rightarrow> int list list option \<Rightarrow> node" where
  "history_node base rewards =
     example_node\<lparr>fee_history := Inr \<lparr>baseFeePerGas = base, reward = rewards\<rparr>\<rparr>"

definition no_history_node :: node where
  "no_history_node = example_node\<lparr>fee_history := Inl (RPCError ''method not found'')\<rparr>"

section \<open>Basic facts\<close>

lemma setdefault_apply:
  "setdefault tx k v k' = (if k' = k \<and> tx k = None then Some v else tx k')"
  by (auto simp: setdefault_def split: option.splits)

lemma setdefault_keeps: "tx k = Some v \<Longrightarrow> setdefault tx k' v' k = Some v"
  by (auto simp: setdefault_apply)

lemma setdefault_other: "k \<noteq> k' \<Longrightarrow> setdefault tx k' v' k = tx k"
  by (simp add: setdefault_apply)

lemma setdefault_map_add: "setdefault tx k v = [k \<mapsto> v] ++ tx"
  by (rule ext) (simp add: setdefault_apply map_add_def split: option.splits)

lemmas float_eval = int_of_quotient_def true_divide_def quotient_exponent_def bit_length.simps
  round_half_even_def float_trunc_def

lemma example_fees: "suggest_fees example_node = Inr (120, 5)"
  by (simp add: suggest_fees_def fees_from_history_def example_node_def and_then_def py_last_def
      mean_tip_def py_nth_def float_eval)

lemma example_acct: "acct example_config = Some signer_address"
  by (simp add: example_config_def)

lemma example_count: "get_transaction_count example_node a = Inr 7"
  by (simp add: example_node_def)

lemma digit_char_props:
  assumes "d < 10"
  shows "is_digit (digit_char d) \<and> digit_val (digit_char d) = d \<and> \<not> is_space (digit_char d)
       \<and> digit_char d \<noteq> CHR ''_'' \<and> digit_char d \<noteq> CHR ''-'' \<and> digit_char d \<noteq> CHR ''+''"
proof -
  from assms have "d \<in> {0, 1, 2, 3, 4, 5, 6, 7, 8, 9}" by auto
  then show ?thesis
    by (auto simp: digit_char_def is_digit_def digit_val_def is_space_def)
qed

lemma nat_str_digits: "set (nat_str n) \<subseteq> digit_char ` {..<10}"
proof (induction n rule: nat_str.induct)
  case (1 n)
  show ?case
  proof (cases "n < 10")
    case True
    then show ?thesis by (subst nat_str.simps) simp
  next
    case False
    then have "set (nat_str (n div 10)) \<subseteq> digit_char ` {..<10}" using 1 by simp
    moreover have "n mod 10 < 10" by simp
    ultimately show ?thesis using False by (subst nat_str.simps) auto
  qed
qed

lemma nat_str_nonempty: "nat_str n \<noteq> []"
  by (subst nat_str.simps) simp

lemma nat_str_chars:
  assumes "c \<in> set (nat_str n)"
  shows "is_digit c \<and> \<not> is_space c \<and> c \<noteq> CHR ''_'' \<and> c \<noteq> CHR ''-'' \<and> c \<noteq> CHR ''+''"
proof -
  from assms obtain d where "d < 10" "c = digit_char d" using nat_str_digits [of n] by auto
  then show ?thesis using digit_char_props [of d] by simp
qed

lemma digits_val_snoc:
  "c \<noteq> CHR ''_'' \<Longrightarrow> digits_val (s @ [c]) = 10 * digits_val s + digit_val c"
  by (simp add: digits_val_def)

lemma digits_val_nat_str: "digits_val (nat_str n) = n"
proof (induction n rule: nat_str.induct)
  case (1 n)
  show ?case
  proof (cases "n < 10")
    case True
    then show ?thesis
      by (subst nat_str.simps) (simp add: digits_val_def digit_char_props)
  next
    case False
    have d: "n mod 10 < 10" by simp
    have "digits_val (nat_str n) = digits_val (nat_str (n div 10) @ [digit_char (n mod 10)])"
      using False by (subst nat_str.simps) simp
    also have "\<dots> = 10 * digits_val (nat_str (n div 10)) + digit_val (digit_char (n mod 10))"
      using digit_char_props [OF d] by (simp add: digits_val_snoc)
    also have "\<dots> = 10 * (n div 10) + n mod 10"
      using 1 False digit_char_props [OF d] by simp
    finally show ?thesis by simp
  qed
qed

lemma digits_ok_all_digits:
  "s \<noteq> [] \<Longrightarrow> \<forall>c\<in>set s. is_digit c \<and> c \<noteq> CHR ''_'' \<Longrightarrow> digits_ok s"
  by (induction s rule: digits_ok.induct) auto

lemma strip_no_space:
  assumes "\<forall>c\<in>set s. \<not> is_space c"
  shows "strip s = s"
proof -
  have "dropWhile is_space s = s" using assms by (cases s) auto
  moreover have "dropWhile is_space (rev s) = rev s"
    using assms by (cases "rev s") (auto dest: arg_cong [where f = set])
  ultimately show ?thesis by (simp add: strip_def)
qed

lemma py_int_nat_str: "py_int (nat_str n) = Inr (int n)"
proof -
  obtain c r where cr: "nat_str n = c # r"
    using nat_str_nonempty [of n] by (cases "nat_str n") auto
  have c: "c \<noteq> CHR ''-''" "c \<noteq> CHR ''+''" using nat_str_chars [of c n] cr by auto
  have s: "strip (nat_str n) = nat_str n"
    by (rule strip_no_space) (use nat_str_chars in blast)
  have ok: "digits_ok (nat_str n)"
    by (rule digits_ok_all_digits [OF nat_str_nonempty]) (use nat_str_chars in blast)
  have "(case nat_str n of
           [] \<Rightarrow> (False, nat_str n)
         | c # r \<Rightarrow> if c = CHR ''-'' then (True, r)
                    else if c = CHR ''+'' then (False, r) else (False, nat_str n))
        = (False, nat_str n)"
    using c by (simp add: cr)
  then show ?thesis
    unfolding py_int_def s using ok by (simp add: digits_val_nat_str)
qed

lemma py_int_py_str: "py_int (py_str i) = Inr i"
proof (cases "i < 0")
  case False
  then show ?thesis by (simp add: py_str_def py_int_nat_str)
next
  case True
  let ?n = "nat (- i)"
  have sp: "\<forall>c\<in>set (CHR ''-'' # nat_str ?n). \<not> is_space c"
    using nat_str_chars [of _ ?n] by (auto simp: is_space_def)
  have s: "strip (CHR ''-'' # nat_str ?n) = CHR ''-'' # nat_str ?n"
    by (rule strip_no_space [OF sp])
  have ok: "digits_ok (nat_str ?n)"
    by (rule digits_ok_all_digits [OF nat_str_nonempty]) (use nat_str_chars in blast)
  show ?thesis
    using True ok unfolding py_str_def py_int_def by (simp add: s digits_val_nat_str)
qed

lemma min_out_spec_div: "min_out_spec q t = q * (10000 - t) div 10000"
  using floor_divide_of_int_eq [of "q * (10000 - t)" 10000, where ?'a = real]
  by (simp add: min_out_spec_def)


lemma with_fees_and_nonce_cases:
  assumes "with_fees_and_nonce cfg w tx = (tx', r)"
  shows "tx' = tx
       \<or> tx' = setdefault tx ''chainId'' (VInt (CHAIN_ID cfg))
       \<or> (\<exists>max_fee tip n. tx' =
            setdefault (setdefault (setdefault (setdefault (setdefault tx
              ''chainId'' (VInt (CHAIN_ID cfg))) ''nonce'' (VInt n)) ''type'' (VInt 2))
              ''maxFeePerGas'' (VInt max_fee)) ''maxPriorityFeePerGas'' (VInt tip))"
proof (cases "suggest_fees w")
  case (Inl e)
  then show ?thesis using assms by (simp add: with_fees_and_nonce_def)
next
  case (Inr p)
  obtain max_fee tip where p: "p = (max_fee, tip)" by (cases p)
  show ?thesis
  proof (cases "acct cfg")
    case None
    then show ?thesis using assms Inr p by (simp add: with_fees_and_nonce_def)
  next
    case (Some a)
    show ?thesis
    proof (cases "get_transaction_count w a")
      case (Inl e)
      then show ?thesis using assms Inr p Some by (simp add: with_fees_and_nonce_def)
    next
      case (Inr n)
      then have "tx' =
            setdefault (setdefault (setdefault (setdefault (setdefault tx
              ''chainId'' (VInt (CHAIN_ID cfg))) ''nonce'' (VInt n)) ''type'' (VInt 2))
              ''maxFeePerGas'' (VInt max_fee)) ''maxPriorityFeePerGas'' (VInt tip)"
        using assms \<open>suggest_fees w = Inr p\<close> p Some by (simp add: with_fees_and_nonce_def Let_def)
      then show ?thesis by blast
    qed
  qed
qed



lemma with_fees_and_nonce_success:
  assumes "suggest_fees w = Inr (max_fee, tip)" "acct cfg = Some a"
    "get_transaction_count w a = Inr n"
  shows "with_fees_and_nonce cfg w tx =
           ([''maxPriorityFeePerGas'' \<mapsto> VInt tip, ''maxFeePerGas'' \<mapsto> VInt max_fee,
             ''type'' \<mapsto> VInt 2, ''nonce'' \<mapsto> VInt n, ''chainId'' \<mapsto> VInt (CHAIN_ID cfg)] ++ tx,
            None)"
proof -
  have "with_fees_and_nonce cfg w tx =
      (setdefault (setdefault (setdefault (setdefault (setdefault tx
         ''chainId'' (VInt (CHAIN_ID cfg))) ''nonce'' (VInt n)) ''type'' (VInt 2))
         ''maxFeePerGas'' (VInt max_fee)) ''maxPriorityFeePerGas'' (VInt tip), None)"
    using assms by (simp add: with_fees_and_nonce_def Let_def)
  then show ?thesis
    by (simp only: setdefault_map_add map_add_assoc map_add_upd map_add_empty)
qed

lemma built_nonce_eq:
  assumes "suggest_fees w = Inr fees" "acct cfg = Some a" "get_transaction_count w a = Inr n"
  shows "built_nonce cfg w tx = Inr (Some (case tx ''nonce'' of None \<Rightarrow> VInt n | Some v \<Rightarrow> v))"
proof -
  obtain max_fee tip where f: "fees = (max_fee, tip)" by (cases fees)
  show ?thesis using assms f
    by (simp add: built_nonce_def with_fees_and_nonce_def Let_def setdefault_apply split: option.splits)
qed


lemma example_addresses:
  "to_checksum_address token_a = Inr ''0xc02aaa39b223fe8d0a0e5c4f27ead9083c756cc2''"
  "to_checksum_address token_b = Inr ''0x7a250d5630b4cf539739df2c5dacb4c659f2488d''"
  "to_checksum_address signer_address = Inr ''0xe592427a0aece92de3edee1f18e0157c05861564''"
  by (simp_all add: to_checksum_address_def is_address_def remove_0x_prefix_def
      is_hex_digit_def lower_char_def token_a_def token_b_def signer_address_def)

lemma py_int_examples: "py_int ''1000000'' = Inr 1000000" "py_int ''0'' = Inr 0"
  by (simp_all add: py_int_def strip_def is_space_def is_digit_def digits_val_def digit_val_def)

section \<open>Claims about filling and submitting a transaction\<close>

text \<open>
  Claim C9. Gas estimation never aborts a swap: \<open>estimate_and_fill_gas\<close> is a total function
  of the transaction (it has no exception to return). When the estimate fails it returns the
  transaction unchanged, and the handler's flow goes on to \<open>send_signed\<close> with the
  transaction as \<open>with_fees_and_nonce\<close> left it; when the estimate succeeds, \<open>gas\<close> is set to
  the estimate times 12 divided by 10 (integer division) only if no \<open>gas\<close> field was there.
\<close>

theorem estimate_and_fill_gas_total:
  "(estimate_gas w tx = Inl e \<longrightarrow> estimate_and_fill_gas w tx = tx)
   \<and> (estimate_gas w tx = Inr gas \<longrightarrow>
        estimate_and_fill_gas w tx =
          (if tx ''gas'' = None then tx(''gas'' \<mapsto> VInt (gas * 12 div 10)) else tx))
   \<and> (with_fees_and_nonce cfg (w3 wld) tx0 = (tx1, None) \<longrightarrow>
        estimate_gas (w3 wld) tx1 = Inl e \<longrightarrow>
        fill_and_send cfg wld tx0 = send_signed cfg wld tx1)"
  by (auto simp: estimate_and_fill_gas_def setdefault_def fill_and_send_def split: option.splits)

theorem estimate_and_fill_gas_total_witness:
  "estimate_and_fill_gas failing_estimate_node fresh_tx = fresh_tx
   \<and> estimate_and_fill_gas example_node fresh_tx = fresh_tx(''gas'' \<mapsto> VInt 120000)
   \<and> estimate_and_fill_gas example_node example_tx = example_tx
   \<and> fill_and_send example_config no_estimate_world fresh_tx =
        send_signed example_config no_estimate_world
          ([''maxPriorityFeePerGas'' \<mapsto> VInt 5, ''maxFeePerGas'' \<mapsto> VInt 120,
            ''type'' \<mapsto> VInt 2, ''nonce'' \<mapsto> VInt 7, ''chainId'' \<mapsto> VInt 1] ++ fresh_tx)"
proof -
  let ?filled = "[''maxPriorityFeePerGas'' \<mapsto> VInt 5, ''maxFeePerGas'' \<mapsto> VInt 120,
            ''type'' \<mapsto> VInt 2, ''nonce'' \<mapsto> VInt 7, ''chainId'' \<mapsto> VInt 1] ++ fresh_tx"
  have f: "estimate_gas failing_estimate_node tx = Inl (RPCError ''execution reverted'')" for tx
    by (simp add: failing_estimate_node_def)
  have g: "estimate_gas example_node tx = Inr 100000" for tx
    by (simp add: example_node_def)
  have fees: "suggest_fees failing_estimate_node = Inr (120, 5)"
    by (simp add: suggest_fees_def fees_from_history_def failing_estimate_node_def
        example_node_def and_then_def py_last_def mean_tip_def py_nth_def float_eval)
  have cnt: "get_transaction_count failing_estimate_node signer_address = Inr 7"
    by (simp add: failing_estimate_node_def example_node_def)
  have w: "with_fees_and_nonce example_config (w3 no_estimate_world) fresh_tx = (?filled, None)"
    using with_fees_and_nonce_success [OF fees example_acct cnt, of fresh_tx]
    by (simp add: no_estimate_world_def example_config_def)
  have e: "estimate_gas (w3 no_estimate_world) ?filled = Inl (RPCError ''execution reverted'')"
    by (simp add: no_estimate_world_def f)
  show ?thesis
    using estimate_and_fill_gas_total [of failing_estimate_node fresh_tx
        "RPCError ''execution reverted''" 0 example_config no_estimate_world fresh_tx ?filled]
      estimate_and_fill_gas_total [of example_node fresh_tx "RPCError []" 100000
        example_config example_world fresh_tx fresh_tx]
      estimate_and_fill_gas_total [of example_node example_tx "RPCError []" 100000
        example_config example_world fresh_tx fresh_tx]
      f g w e
    by (simp add: fresh_tx_def example_tx_def)
qed

text \<open>
  Claim C10. Filling fees and nonce never overwrites a field the caller provided: whatever
  \<open>with_fees_and_nonce\<close> does, also when it raises, every field present before keeps its
  value and no field other than \<open>chainId\<close>, \<open>nonce\<close>, \<open>type\<close>, \<open>maxFeePerGas\<close> and
  \<open>maxPriorityFeePerGas\<close> changes; when its queries succeed it returns the transaction with
  exactly the absent ones of the five set to their defaults.
\<close>

theorem with_fees_and_nonce_frame:
  assumes "with_fees_and_nonce cfg w tx = (tx', r)"
  shows "(\<forall>k v. tx k = Some v \<longrightarrow> tx' k = Some v)
       \<and> (\<forall>k. k \<notin> {''chainId'', ''nonce'', ''type'', ''maxFeePerGas'', ''maxPriorityFeePerGas''}
              \<longrightarrow> tx' k = tx k)
       \<and> (\<forall>max_fee tip a n.
            suggest_fees w = Inr (max_fee, tip) \<longrightarrow> acct cfg = Some a \<longrightarrow>
            get_transaction_count w a = Inr n \<longrightarrow>
            r = None \<and>
            tx' = [''maxPriorityFeePerGas'' \<mapsto> VInt tip, ''maxFeePerGas'' \<mapsto> VInt max_fee,
                   ''type'' \<mapsto> VInt 2, ''nonce'' \<mapsto> VInt n, ''chainId'' \<mapsto> VInt (CHAIN_ID cfg)] ++ tx)"
proof (intro conjI allI impI)
  fix k v assume kv: "tx k = Some v"
  from with_fees_and_nonce_cases [OF assms] show "tx' k = Some v"
  proof (elim disjE exE)
    assume "tx' = tx" then show ?thesis using kv by simp
  next
    assume "tx' = setdefault tx ''chainId'' (VInt (CHAIN_ID cfg))"
    then show ?thesis using kv by (simp add: setdefault_keeps)
  next
    fix max_fee tip n
    assume "tx' = setdefault (setdefault (setdefault (setdefault (setdefault tx
              ''chainId'' (VInt (CHAIN_ID cfg))) ''nonce'' (VInt n)) ''type'' (VInt 2))
              ''maxFeePerGas'' (VInt max_fee)) ''maxPriorityFeePerGas'' (VInt tip)"
    then show ?thesis using kv by (simp add: setdefault_keeps)
  qed
next
  fix k assume "k \<notin> {''chainId'', ''nonce'', ''type'', ''maxFeePerGas'', ''maxPriorityFeePerGas''}"
  then have ne: "k \<noteq> ''chainId''" "k \<noteq> ''nonce''" "k \<noteq> ''type''" "k \<noteq> ''maxFeePerGas''"
    "k \<noteq> ''maxPriorityFeePerGas''" by simp_all
  from with_fees_and_nonce_cases [OF assms] show "tx' k = tx k"
  proof (elim disjE exE)
    assume "tx' = tx" then show ?thesis by simp
  next
    assume "tx' = setdefault tx ''chainId'' (VInt (CHAIN_ID cfg))"
    then show ?thesis using ne(1) by (simp add: setdefault_other)
  next
    fix max_fee tip n
    assume "tx' = setdefault (setdefault (setdefault (setdefault (setdefault tx
              ''chainId'' (VInt (CHAIN_ID cfg))) ''nonce'' (VInt n)) ''type'' (VInt 2))
              ''maxFeePerGas'' (VInt max_fee)) ''maxPriorityFeePerGas'' (VInt tip)"
    then show ?thesis using ne by (simp add: setdefault_other)
  qed
next
  fix max_fee tip a n
  assume "suggest_fees w = Inr (max_fee, tip)" "acct cfg = Some a"
    "get_transaction_count w a = Inr n"
  from with_fees_and_nonce_success [OF this, of tx] assms
  show "r = None"
    and "tx' = [''maxPriorityFeePerGas'' \<mapsto> VInt tip, ''maxFeePerGas'' \<mapsto> VInt max_fee,
                ''type'' \<mapsto> VInt 2, ''nonce'' \<mapsto> VInt n, ''chainId'' \<mapsto> VInt (CHAIN_ID cfg)] ++ tx"
    by simp_all
qed

theorem with_fees_and_nonce_frame_witness:
  "fst (with_fees_and_nonce example_config example_node example_tx) ''nonce'' = Some (VInt 3)
   \<and> fst (with_fees_and_nonce example_config example_node example_tx) ''gas'' = Some (VInt 21000)
   \<and> fst (with_fees_and_nonce example_config example_node example_tx) ''data''
        = example_tx ''data''
   \<and> snd (with_fees_and_nonce example_config example_node example_tx) = None
   \<and> fst (with_fees_and_nonce example_config example_node example_tx) =
        [''maxPriorityFeePerGas'' \<mapsto> VInt 5, ''maxFeePerGas'' \<mapsto> VInt 120,
         ''type'' \<mapsto> VInt 2, ''nonce'' \<mapsto> VInt 7, ''chainId'' \<mapsto> VInt 1] ++ example_tx"
proof -
  let ?r = "with_fees_and_nonce example_config example_node example_tx"
  have "?r = (fst ?r, snd ?r)" by simp
  note fr = with_fees_and_nonce_frame [OF this]
  note a = fr [THEN conjunct1, rule_format]
  note b = fr [THEN conjunct2, THEN conjunct1, rule_format]
  note c = fr [THEN conjunct2, THEN conjunct2, rule_format,
      OF example_fees example_acct example_count]
  have "fst ?r ''nonce'' = Some (VInt 3)" by (rule a) (simp add: example_tx_def)
  moreover have "fst ?r ''gas'' = Some (VInt 21000)" by (rule a) (simp add: example_tx_def)
  moreover have "fst ?r ''data'' = example_tx ''data''" by (rule b) simp
  ultimately show ?thesis using c by (simp add: example_config_def)
qed

section \<open>Claims about the nonce and the submission endpoint\<close>

text \<open>
  Claim C1, as the code has it. There is no nonce counter: each build reads the signer's
  transaction count from the node, and a transaction without a \<open>nonce\<close> carries what that
  read returned. So the nonces of consecutive builds are the counts the node reported at
  each of them, and they neither increase nor differ unless the node's answer does.
\<close>

theorem build_nonces_read_chain_count:
  assumes "acct cfg = Some a"
    and "list_all (\<lambda>(w, tx). tx ''nonce'' = None \<and> (\<exists>fees. suggest_fees w = Inr fees)
                     \<and> (\<exists>n. get_transaction_count w a = Inr n)) builds"
  shows "build_nonces cfg builds
           = map (\<lambda>(w, tx). (case get_transaction_count w a of Inl e \<Rightarrow> Inl e | Inr n \<Rightarrow> Inr (Some (VInt n)))) builds"
  using assms(2)
proof (induction builds)
  case Nil
  then show ?case by (simp add: build_nonces_def)
next
  case (Cons b builds)
  obtain w tx where b: "b = (w, tx)" by (cases b)
  from Cons.prems b obtain fees n where
    h: "tx ''nonce'' = None" "suggest_fees w = Inr fees" "get_transaction_count w a = Inr n"
    by auto
  have "built_nonce cfg w tx = Inr (Some (VInt n))"
    using built_nonce_eq [OF h(2) assms(1) h(3), of tx] h(1) by simp
  moreover have "build_nonces cfg builds
           = map (\<lambda>(w, tx). (case get_transaction_count w a of Inl e \<Rightarrow> Inl e | Inr n \<Rightarrow> Inr (Some (VInt n)))) builds"
    using Cons by simp
  ultimately show ?case using b h(3) by (simp add: build_nonces_def)
qed

theorem build_nonces_read_chain_count_witness:
  "build_nonces example_config [(example_node, fresh_tx), (example_node, fresh_tx)]
     = [Inr (Some (VInt 7)), Inr (Some (VInt 7))]"
proof -
  have "list_all (\<lambda>(w, tx). tx ''nonce'' = None \<and> (\<exists>fees. suggest_fees w = Inr fees)
                     \<and> (\<exists>n. get_transaction_count w signer_address = Inr n))
          [(example_node, fresh_tx), (example_node, fresh_tx)]"
    using example_fees by (simp add: fresh_tx_def example_count)
  from build_nonces_read_chain_count [OF example_acct this] show ?thesis
    by (simp add: example_count)
qed

text \<open>
  Two builds against a node that reports 7 both times (no transaction of the signer was
  mined in between) carry 7 and 7, not 7 and 8.
\<close>

theorem build_nonces_repeat_counterexample:
  "build_nonces example_config [(example_node, fresh_tx), (example_node, fresh_tx)]
     = [Inr (Some (VInt 7)), Inr (Some (VInt 7))]
   \<and> build_nonces example_config [(example_node, fresh_tx), (example_node, fresh_tx)]
     \<noteq> [Inr (Some (VInt 7)), Inr (Some (VInt (7 + 1)))]"
proof -
  have "built_nonce example_config example_node fresh_tx = Inr (Some (VInt 7))"
    using built_nonce_eq [OF example_fees example_acct example_count, of fresh_tx]
    by (simp add: fresh_tx_def)
  then show ?thesis by (simp add: build_nonces_def)
qed

text \<open>
  Claim C8. A submission is sent to at most one endpoint, chosen once before signing: the
  primary one when no relay URL is set, the relay whenever one is set. Constructing the
  provider for the relay URL stores the URL and neither validates it nor connects, so it
  returns for every URL (the hypothesis \<open>relay wld url = Inr n\<close>); with the relay chosen,
  a failure of the relay's send is the result of \<open>send_signed\<close>, and the one submission made
  went to the relay, none to the primary endpoint.
\<close>

theorem send_signed_target:
  "length (fst (send_signed cfg wld tx)) \<le> 1
   \<and> (PRIVATE_RPC_URL cfg = None \<or> PRIVATE_RPC_URL cfg = Some [] \<longrightarrow>
        send_signed cfg wld tx =
          (case sign_transaction wld tx (PRIVATE_KEY cfg) of
             Inl e \<Rightarrow> ([], Inl e)
           | Inr raw \<Rightarrow> ([(Primary, raw)], send_raw_transaction (w3 wld) raw)))
   \<and> (PRIVATE_RPC_URL cfg = Some url \<and> url \<noteq> [] \<and> relay wld url = Inr n \<longrightarrow>
        send_signed cfg wld tx =
          (case sign_transaction wld tx (PRIVATE_KEY cfg) of
             Inl e \<Rightarrow> ([], Inl e)
           | Inr raw \<Rightarrow> ([(PrivateRelay, raw)], send_raw_transaction n raw))
        \<and> (\<forall>s\<in>set (fst (send_signed cfg wld tx)). fst s = PrivateRelay))"
  by (auto simp: send_signed_def choose_provider_def split: option.splits sum.splits prod.splits)

theorem send_signed_target_witness:
  "send_signed relay_config example_world fresh_tx
     = ([(PrivateRelay, [1, 2, 3])], Inl (RPCError ''relay down''))
   \<and> send_signed example_config example_world fresh_tx = ([(Primary, [1, 2, 3])], Inr ''0xaa'')"
proof -
  have "PRIVATE_RPC_URL relay_config = Some ''https://relay.example''
      \<and> ''https://relay.example'' \<noteq> []
      \<and> relay example_world ''https://relay.example'' = Inr relay_node"
    by (simp add: relay_config_def example_world_def)
  moreover have "PRIVATE_RPC_URL example_config = None \<or> PRIVATE_RPC_URL example_config = Some []"
    by (simp add: example_config_def)
  ultimately show ?thesis
    using send_signed_target [of relay_config example_world fresh_tx "''https://relay.example''"
        relay_node]
      send_signed_target [of example_config example_world fresh_tx "[]" relay_node]
    by (simp add: example_world_def relay_node_def example_node_def)
qed

section \<open>Claims about the swap handlers\<close>

text \<open>
  Claim C2. When the caller gives no minimum output, the \<open>amountOutMin\<close> of the router
  call that \<open>v2_swap\<close> and \<open>v3_swap\<close> build is the floor of
  \<open>quotedOut * (10000 - toleranceBps) / 10000\<close>, for every quoted amount and every
  tolerance (in particular for those in 0..10000); 1,000,000 at 50 basis points gives
  995,000.
\<close>

theorem swap_amount_out_min_floor:
  "(acct cfg = Some a \<and> v2_amount_out_min body = None
      \<and> to_checksum_address (or_str (v2_to body) (or_str (DEFAULT_RECIPIENT cfg) a)) = Inr to_addr
      \<and> py_int (v2_amount_in body) = Inr amount_in
      \<and> map_result to_checksum_address (v2_path body) = Inr path
      \<and> getAmountsOut wld amount_in path = Inr amounts \<and> amounts \<noteq> [] \<longrightarrow>
    v2_swap cfg wld body =
      submit_400 ''v2 swap failed'' cfg wld a
        ((if v2_support_fee_on_transfer body
          then SwapExactTokensForTokensSupportingFeeOnTransferTokens
          else SwapExactTokensForTokens)
           amount_in (min_out_spec (last amounts) (v2_slippage_bps body)) path to_addr
           (or_int (v2_deadline body) (now_plus wld 300))))
   \<and> (acct cfg = Some a \<and> v3_amount_out_min body3 = None
      \<and> to_checksum_address (v3_token_in body3) = Inr token_in
      \<and> to_checksum_address (v3_token_out body3) = Inr token_out
      \<and> to_checksum_address (or_str (v3_recipient body3) (or_str (DEFAULT_RECIPIENT cfg) a))
            = Inr recipient
      \<and> py_int (v3_amount_in body3) = Inr amount_in3
      \<and> quoteExactInputSingle wld token_in token_out (v3_fee body3) amount_in3
            (v3_sqrt_price_limit_x96 body3) = Inr out_amt \<longrightarrow>
    v3_swap cfg wld body3 =
      submit_400 ''v3 swap failed'' cfg wld a
        (ExactInputSingle token_in token_out (v3_fee body3) recipient
           (or_int (v3_deadline body3) (now_plus wld 300)) amount_in3
           (min_out_spec out_amt (v3_slippage_bps body3)) (v3_sqrt_price_limit_x96 body3)))
   \<and> min_out_spec 1000000 50 = 995000"
proof (intro conjI impI)
  assume h: "acct cfg = Some a \<and> v2_amount_out_min body = None
      \<and> to_checksum_address (or_str (v2_to body) (or_str (DEFAULT_RECIPIENT cfg) a)) = Inr to_addr
      \<and> py_int (v2_amount_in body) = Inr amount_in
      \<and> map_result to_checksum_address (v2_path body) = Inr path
      \<and> getAmountsOut wld amount_in path = Inr amounts \<and> amounts \<noteq> []"
  then have s: "v2_amount_out_min_str wld body
      = Inr (py_str (last amounts * (10000 - v2_slippage_bps body) div 10000))"
    by (simp add: v2_amount_out_min_str_def and_then_def py_last_def)
  show "v2_swap cfg wld body =
      submit_400 ''v2 swap failed'' cfg wld a
        ((if v2_support_fee_on_transfer body
          then SwapExactTokensForTokensSupportingFeeOnTransferTokens
          else SwapExactTokensForTokens)
           amount_in (min_out_spec (last amounts) (v2_slippage_bps body)) path to_addr
           (or_int (v2_deadline body) (now_plus wld 300)))"
    using h by (simp add: v2_swap_def s v2_router_call_def and_then_def py_int_py_str
        min_out_spec_div)
next
  assume h: "acct cfg = Some a \<and> v3_amount_out_min body3 = None
      \<and> to_checksum_address (v3_token_in body3) = Inr token_in
      \<and> to_checksum_address (v3_token_out body3) = Inr token_out
      \<and> to_checksum_address (or_str (v3_recipient body3) (or_str (DEFAULT_RECIPIENT cfg) a))
            = Inr recipient
      \<and> py_int (v3_amount_in body3) = Inr amount_in3
      \<and> quoteExactInputSingle wld token_in token_out (v3_fee body3) amount_in3
            (v3_sqrt_price_limit_x96 body3) = Inr out_amt"
  then have s: "v3_amount_out_min_str wld body3
      = Inr (py_str (out_amt * (10000 - v3_slippage_bps body3) div 10000))"
    by (simp add: v3_amount_out_min_str_def and_then_def)
  show "v3_swap cfg wld body3 =
      submit_400 ''v3 swap failed'' cfg wld a
        (ExactInputSingle token_in token_out (v3_fee body3) recipient
           (or_int (v3_deadline body3) (now_plus wld 300)) amount_in3
           (min_out_spec out_amt (v3_slippage_bps body3)) (v3_sqrt_price_limit_x96 body3))"
    using h by (simp add: v3_swap_def s v3_params_def and_then_def py_int_py_str
        min_out_spec_div)
next
  show "min_out_spec 1000000 50 = 995000" by (simp add: min_out_spec_div)
qed

theorem swap_amount_out_min_floor_witness:
  "v2_swap example_config example_world example_v2_body =
     submit_400 ''v2 swap failed'' example_config example_world signer_address
       (SwapExactTokensForTokens 1000000 1990000
          [''0xc02aaa39b223fe8d0a0e5c4f27ead9083c756cc2'',
           ''0x7a250d5630b4cf539739df2c5dacb4c659f2488d'']
          ''0xe592427a0aece92de3edee1f18e0157c05861564'' 1700000300)
   \<and> v3_swap example_config example_world example_v3_body =
     submit_400 ''v3 swap failed'' example_config example_world signer_address
       (ExactInputSingle ''0xc02aaa39b223fe8d0a0e5c4f27ead9083c756cc2''
          ''0x7a250d5630b4cf539739df2c5dacb4c659f2488d'' 3000
          ''0xe592427a0aece92de3edee1f18e0157c05861564'' 1700000300 1000000 1990000 0)"
proof -
  let ?a = "''0xc02aaa39b223fe8d0a0e5c4f27ead9083c756cc2''"
  let ?b = "''0x7a250d5630b4cf539739df2c5dacb4c659f2488d''"
  let ?s = "''0xe592427a0aece92de3edee1f18e0157c05861564''"
  have p2: "acct example_config = Some signer_address \<and> v2_amount_out_min example_v2_body = None
      \<and> to_checksum_address (or_str (v2_to example_v2_body)
           (or_str (DEFAULT_RECIPIENT example_config) signer_address)) = Inr ?s
      \<and> py_int (v2_amount_in example_v2_body) = Inr 1000000
      \<and> map_result to_checksum_address (v2_path example_v2_body) = Inr [?a, ?b]
      \<and> getAmountsOut example_world 1000000 [?a, ?b] = Inr [1000000, 2000000]
      \<and> [1000000, 2000000] \<noteq> ([] :: int list)"
    by (simp add: example_config_def example_v2_body_def example_world_def or_str_def
        example_addresses py_int_examples)
  have p3: "acct example_config = Some signer_address \<and> v3_amount_out_min example_v3_body = None
      \<and> to_checksum_address (v3_token_in example_v3_body) = Inr ?a
      \<and> to_checksum_address (v3_token_out example_v3_body) = Inr ?b
      \<and> to_checksum_address (or_str (v3_recipient example_v3_body)
           (or_str (DEFAULT_RECIPIENT example_config) signer_address)) = Inr ?s
      \<and> py_int (v3_amount_in example_v3_body) = Inr 1000000
      \<and> quoteExactInputSingle example_world ?a ?b (v3_fee example_v3_body) 1000000
            (v3_sqrt_price_limit_x96 example_v3_body) = Inr 2000000"
    by (simp add: example_config_def example_v3_body_def example_world_def or_str_def
        example_addresses py_int_examples)
  note t = swap_amount_out_min_floor [where cfg = example_config and a = signer_address
      and wld = example_world and body = example_v2_body and ?body3.0 = example_v3_body
      and to_addr = ?s and amount_in = 1000000 and path = "[?a, ?b]"
      and amounts = "[1000000, 2000000]" and token_in = ?a and token_out = ?b
      and recipient = ?s and ?amount_in3.0 = 1000000 and out_amt = 2000000]
  have m: "min_out_spec 2000000 50 = 1990000" by (simp add: min_out_spec_div)
  show ?thesis
    using t [THEN conjunct1, rule_format, OF p2]
      t [THEN conjunct2, THEN conjunct1, rule_format, OF p3]
    by (simp add: example_v2_body_def example_v3_body_def example_world_def now_plus_def
        or_int_def m)
qed

lemma example_send:
  "send_signed example_config example_world tx = ([(Primary, [1, 2, 3])], Inr ''0xaa'')"
  by (simp add: send_signed_def choose_provider_def example_config_def example_world_def
      example_node_def)

lemma example_fill_and_send:
  "fill_and_send example_config example_world tx = ([(Primary, [1, 2, 3])], Inr ''0xaa'')"
proof -
  have "w3 example_world = example_node" by (simp add: example_world_def)
  then show ?thesis
    using with_fees_and_nonce_success [OF example_fees example_acct example_count, of tx]
    by (simp add: fill_and_send_def example_send)
qed

lemma example_submit:
  "submit_400 what example_config example_world a call = ([(Primary, [1, 2, 3])], Inr ''0xaa'')"
proof -
  have "build_transaction example_world call (sender a)
      = Inr ((sender a)(''to'' \<mapsto> VStr ''router''))"
    by (simp add: example_world_def)
  then show ?thesis
    by (simp add: submit_400_def example_fill_and_send failed_400_def)
qed


lemma v2_swap_cases:
  assumes "acct cfg = Some a"
    and "to_checksum_address (or_str (v2_to body) (or_str (DEFAULT_RECIPIENT cfg) a)) = Inr to_addr"
    and "py_int (v2_amount_in body) = Inr amount_in"
    and "map_result to_checksum_address (v2_path body) = Inr path"
  shows "v2_amount_out_min body = Some given \<Longrightarrow> py_int given = Inr min_out \<Longrightarrow>
      v2_swap cfg wld body =
        submit_400 ''v2 swap failed'' cfg wld a
          ((if v2_support_fee_on_transfer body
            then SwapExactTokensForTokensSupportingFeeOnTransferTokens
            else SwapExactTokensForTokens)
             amount_in min_out path to_addr (or_int (v2_deadline body) (now_plus wld 300)))"
    and "v2_amount_out_min body = None \<Longrightarrow> getAmountsOut wld amount_in path = Inr amounts \<Longrightarrow>
      amounts \<noteq> [] \<Longrightarrow>
      v2_swap cfg wld body =
        submit_400 ''v2 swap failed'' cfg wld a
          ((if v2_support_fee_on_transfer body
            then SwapExactTokensForTokensSupportingFeeOnTransferTokens
            else SwapExactTokensForTokens)
             amount_in (last amounts * (10000 - v2_slippage_bps body) div 10000) path to_addr
             (or_int (v2_deadline body) (now_plus wld 300)))"
    and "v2_amount_out_min body = None \<Longrightarrow> getAmountsOut wld amount_in path = Inl e \<Longrightarrow>
      v2_swap cfg wld body = ([], Inl e)"
    and "v2_amount_out_min body = None \<Longrightarrow> getAmountsOut wld amount_in path = Inr [] \<Longrightarrow>
      v2_swap cfg wld body = ([], Inl IndexError)"
  using assms
  by (simp_all add: v2_swap_def v2_amount_out_min_str_def v2_router_call_def and_then_def
      py_last_def py_int_py_str)

lemma v3_swap_cases:
  assumes "acct cfg = Some a"
    and "to_checksum_address (v3_token_in body) = Inr token_in"
    and "to_checksum_address (v3_token_out body) = Inr token_out"
    and "to_checksum_address (or_str (v3_recipient body) (or_str (DEFAULT_RECIPIENT cfg) a))
           = Inr recipient"
    and "py_int (v3_amount_in body) = Inr amount_in"
  shows "v3_amount_out_min body = Some given \<Longrightarrow> py_int given = Inr min_out \<Longrightarrow>
      v3_swap cfg wld body =
        submit_400 ''v3 swap failed'' cfg wld a
          (ExactInputSingle token_in token_out (v3_fee body) recipient
             (or_int (v3_deadline body) (now_plus wld 300)) amount_in min_out
             (v3_sqrt_price_limit_x96 body))"
    and "v3_amount_out_min body = None \<Longrightarrow>
      quoteExactInputSingle wld token_in token_out (v3_fee body) amount_in
        (v3_sqrt_price_limit_x96 body) = Inr out_amt \<Longrightarrow>
      v3_swap cfg wld body =
        submit_400 ''v3 swap failed'' cfg wld a
          (ExactInputSingle token_in token_out (v3_fee body) recipient
             (or_int (v3_deadline body) (now_plus wld 300)) amount_in
             (out_amt * (10000 - v3_slippage_bps body) div 10000)
             (v3_sqrt_price_limit_x96 body))"
    and "v3_amount_out_min body = None \<Longrightarrow>
      quoteExactInputSingle wld token_in token_out (v3_fee body) amount_in
        (v3_sqrt_price_limit_x96 body) = Inl e \<Longrightarrow>
      v3_swap cfg wld body = ([], Inl e)"
  using assms
  by (simp_all add: v3_swap_def v3_amount_out_min_str_def v3_params_def and_then_def
      py_int_py_str)

lemma submit_400_cases:
  "build_transaction wld call (sender a) = Inl e \<Longrightarrow>
     submit_400 what cfg wld a call = ([], Inl (HTTPException 400 (Caused what e)))"
  "build_transaction wld call (sender a) = Inr tx \<Longrightarrow>
     submit_400 what cfg wld a call =
       (fst (fill_and_send cfg wld tx), failed_400 what (snd (fill_and_send cfg wld tx)))"
  by (simp_all add: submit_400_def failed_400_def split: prod.splits)

text \<open>
  Claim C7, as the code has it. The handlers validate neither the deadline nor the amount
  nor the length of the path, and they have no validation error. With a signer configured
  and well-formed numbers and addresses, \<open>v2_swap\<close> and \<open>v3_swap\<close> submit the router call with
  the caller's amount, path and deadline as they are (the deadline is replaced by now + 300
  only when it is absent or 0), the minimum output being the one given or, when none is
  given, the one computed from the quote. A swap fails only where a step fails: when no
  minimum is given and the quote fails (or returns no amounts), its exception is raised as
  it is, before anything is built; when the transaction cannot be built nothing is
  submitted and the error is an HTTP 400 carrying the cause; and when it is built the
  outcome is that of filling, signing and sending it, a failure there again as a 400.
\<close>

theorem swap_handlers_do_not_validate:
  "(acct cfg = Some a
      \<and> to_checksum_address (or_str (v2_to body) (or_str (DEFAULT_RECIPIENT cfg) a)) = Inr to_addr
      \<and> py_int (v2_amount_in body) = Inr amount_in
      \<and> map_result to_checksum_address (v2_path body) = Inr path \<longrightarrow>
    (v2_amount_out_min body = Some given \<and> py_int given = Inr min_out \<longrightarrow>
       v2_swap cfg wld body =
         submit_400 ''v2 swap failed'' cfg wld a
           ((if v2_support_fee_on_transfer body
             then SwapExactTokensForTokensSupportingFeeOnTransferTokens
             else SwapExactTokensForTokens)
              amount_in min_out path to_addr (or_int (v2_deadline body) (now_plus wld 300))))
    \<and> (v2_amount_out_min body = None \<and> getAmountsOut wld amount_in path = Inr amounts
          \<and> amounts \<noteq> [] \<longrightarrow>
       v2_swap cfg wld body =
         submit_400 ''v2 swap failed'' cfg wld a
           ((if v2_support_fee_on_transfer body
             then SwapExactTokensForTokensSupportingFeeOnTransferTokens
             else SwapExactTokensForTokens)
              amount_in (last amounts * (10000 - v2_slippage_bps body) div 10000) path to_addr
              (or_int (v2_deadline body) (now_plus wld 300))))
    \<and> (v2_amount_out_min body = None \<and> getAmountsOut wld amount_in path = Inl e \<longrightarrow>
       v2_swap cfg wld body = ([], Inl e))
    \<and> (v2_amount_out_min body = None \<and> getAmountsOut wld amount_in path = Inr [] \<longrightarrow>
       v2_swap cfg wld body = ([], Inl IndexError)))
   \<and> (acct cfg = Some a
      \<and> to_checksum_address (v3_token_in body3) = Inr token_in
      \<and> to_checksum_address (v3_token_out body3) = Inr token_out
      \<and> to_checksum_address (or_str (v3_recipient body3) (or_str (DEFAULT_RECIPIENT cfg) a))
            = Inr recipient
      \<and> py_int (v3_amount_in body3) = Inr amount_in3 \<longrightarrow>
    (v3_amount_out_min body3 = Some given3 \<and> py_int given3 = Inr min_out3 \<longrightarrow>
       v3_swap cfg wld body3 =
         submit_400 ''v3 swap failed'' cfg wld a
           (ExactInputSingle token_in token_out (v3_fee body3) recipient
              (or_int (v3_deadline body3) (now_plus wld 300)) amount_in3 min_out3
              (v3_sqrt_price_limit_x96 body3)))
    \<and> (v3_amount_out_min body3 = None
          \<and> quoteExactInputSingle wld token_in token_out (v3_fee body3) amount_in3
               (v3_sqrt_price_limit_x96 body3) = Inr out_amt \<longrightarrow>
       v3_swap cfg wld body3 =
         submit_400 ''v3 swap failed'' cfg wld a
           (ExactInputSingle token_in token_out (v3_fee body3) recipient
              (or_int (v3_deadline body3) (now_plus wld 300)) amount_in3
              (out_amt * (10000 - v3_slippage_bps body3) div 10000)
              (v3_sqrt_price_limit_x96 body3)))
    \<and> (v3_amount_out_min body3 = None
          \<and> quoteExactInputSingle wld token_in token_out (v3_fee body3) amount_in3
               (v3_sqrt_price_limit_x96 body3) = Inl e \<longrightarrow>
       v3_swap cfg wld body3 = ([], Inl e)))
   \<and> (build_transaction wld call (sender a) = Inl e \<longrightarrow>
        submit_400 what cfg wld a call = ([], Inl (HTTPException 400 (Caused what e))))
   \<and> (build_transaction wld call (sender a) = Inr tx \<longrightarrow>
        submit_400 what cfg wld a call =
          (fst (fill_and_send cfg wld tx), failed_400 what (snd (fill_and_send cfg wld tx))))"
  using v2_swap_cases [of cfg a body to_addr amount_in path]
    v3_swap_cases [of cfg a body3 token_in token_out recipient amount_in3]
    submit_400_cases [of wld call a]
  by (intro conjI impI) (simp_all only: conj_imp_eq_imp_imp, blast+)

text \<open>
  An intent whose deadline (1) is long past at build time (1700000000), whose amount is 0
  and whose path has a single token is built and submitted to the primary endpoint, and so
  is a single-hop intent with a past deadline and amount 0.
\<close>

theorem stale_swap_submitted_counterexample:
  "v2_deadline stale_v2_body = Some 1 \<and> 1 < time_now example_world
   \<and> py_int (v2_amount_in stale_v2_body) = Inr 0 \<and> length (v2_path stale_v2_body) < 2
   \<and> v2_swap example_config example_world stale_v2_body = ([(Primary, [1, 2, 3])], Inr ''0xaa'')
   \<and> v3_deadline stale_v3_body = Some 1 \<and> py_int (v3_amount_in stale_v3_body) = Inr 0
   \<and> v3_swap example_config example_world stale_v3_body = ([(Primary, [1, 2, 3])], Inr ''0xaa'')"
proof -
  have t: "time_now example_world = 1700000000" by (simp add: example_world_def)
  have d: "DEFAULT_RECIPIENT example_config = None" by (simp add: example_config_def)
  have "v2_swap example_config example_world stale_v2_body
      = ([(Primary, [1, 2, 3])], Inr ''0xaa'')"
    by (simp add: stale_v2_body_def v2_swap_def v2_amount_out_min_str_def v2_router_call_def
        and_then_def example_acct d example_addresses py_int_examples or_str_def
        example_submit)
  moreover have "v3_swap example_config example_world stale_v3_body
      = ([(Primary, [1, 2, 3])], Inr ''0xaa'')"
    by (simp add: stale_v3_body_def v3_swap_def v3_amount_out_min_str_def v3_params_def
        and_then_def example_acct d example_addresses py_int_examples or_str_def
        example_submit)
  ultimately show ?thesis
    by (simp add: t stale_v2_body_def stale_v3_body_def py_int_examples)
qed



theorem swap_handlers_do_not_validate_witness:
  "v2_swap example_config example_world stale_v2_body =
     submit_400 ''v2 swap failed'' example_config example_world signer_address
       (SwapExactTokensForTokens 0 0 [''0xc02aaa39b223fe8d0a0e5c4f27ead9083c756cc2'']
          ''0xe592427a0aece92de3edee1f18e0157c05861564'' 1)
   \<and> v2_swap example_config example_world example_v2_body =
     submit_400 ''v2 swap failed'' example_config example_world signer_address
       (SwapExactTokensForTokens 1000000 1990000
          [''0xc02aaa39b223fe8d0a0e5c4f27ead9083c756cc2'',
           ''0x7a250d5630b4cf539739df2c5dacb4c659f2488d'']
          ''0xe592427a0aece92de3edee1f18e0157c05861564'' 1700000300)
   \<and> v2_swap example_config no_quote_world example_v2_body
     = ([], Inl (RPCError ''execution reverted''))
   \<and> v2_swap example_config empty_quote_world example_v2_body = ([], Inl IndexError)
   \<and> v3_swap example_config example_world stale_v3_body =
     submit_400 ''v3 swap failed'' example_config example_world signer_address
       (ExactInputSingle ''0xc02aaa39b223fe8d0a0e5c4f27ead9083c756cc2''
          ''0x7a250d5630b4cf539739df2c5dacb4c659f2488d'' 3000
          ''0xe592427a0aece92de3edee1f18e0157c05861564'' 1 0 0 0)
   \<and> v3_swap example_config example_world example_v3_body =
     submit_400 ''v3 swap failed'' example_config example_world signer_address
       (ExactInputSingle ''0xc02aaa39b223fe8d0a0e5c4f27ead9083c756cc2''
          ''0x7a250d5630b4cf539739df2c5dacb4c659f2488d'' 3000
          ''0xe592427a0aece92de3edee1f18e0157c05861564'' 1700000300 1000000 1990000 0)
   \<and> v3_swap example_config no_quote_world example_v3_body
     = ([], Inl (RPCError ''execution reverted''))
   \<and> submit_400 ''v2 swap failed'' example_config no_build_world signer_address
        (SwapExactTokensForTokens 0 0 [] [] 1)
      = ([], Inl (HTTPException 400 (Caused ''v2 swap failed'' (RPCError ''execution reverted''))))
   \<and> submit_400 ''v2 swap failed'' example_config example_world signer_address
        (SwapExactTokensForTokens 0 0 [] [] 1)
      = ([(Primary, [1, 2, 3])], Inr ''0xaa'')"
proof -
  let ?a = "''0xc02aaa39b223fe8d0a0e5c4f27ead9083c756cc2''"
  let ?b = "''0x7a250d5630b4cf539739df2c5dacb4c659f2488d''"
  let ?s = "''0xe592427a0aece92de3edee1f18e0157c05861564''"
  let ?call = "SwapExactTokensForTokens 0 0 [] [] 1"
  have wf_stale2: "acct example_config = Some signer_address
      \<and> to_checksum_address (or_str (v2_to stale_v2_body)
           (or_str (DEFAULT_RECIPIENT example_config) signer_address)) = Inr ?s
      \<and> py_int (v2_amount_in stale_v2_body) = Inr 0
      \<and> map_result to_checksum_address (v2_path stale_v2_body) = Inr [?a]"
    by (simp add: example_config_def stale_v2_body_def or_str_def example_addresses
        py_int_examples)
  have wf_ex2: "acct example_config = Some signer_address
      \<and> to_checksum_address (or_str (v2_to example_v2_body)
           (or_str (DEFAULT_RECIPIENT example_config) signer_address)) = Inr ?s
      \<and> py_int (v2_amount_in example_v2_body) = Inr 1000000
      \<and> map_result to_checksum_address (v2_path example_v2_body) = Inr [?a, ?b]"
    by (simp add: example_config_def example_v2_body_def or_str_def example_addresses
        py_int_examples)
  have wf_stale3: "acct example_config = Some signer_address
      \<and> to_checksum_address (v3_token_in stale_v3_body) = Inr ?a
      \<and> to_checksum_address (v3_token_out stale_v3_body) = Inr ?b
      \<and> to_checksum_address (or_str (v3_recipient stale_v3_body)
           (or_str (DEFAULT_RECIPIENT example_config) signer_address)) = Inr ?s
      \<and> py_int (v3_amount_in stale_v3_body) = Inr 0"
    by (simp add: example_config_def stale_v3_body_def or_str_def example_addresses
        py_int_examples)
  have wf_ex3: "acct example_config = Some signer_address
      \<and> to_checksum_address (v3_token_in example_v3_body) = Inr ?a
      \<and> to_checksum_address (v3_token_out example_v3_body) = Inr ?b
      \<and> to_checksum_address (or_str (v3_recipient example_v3_body)
           (or_str (DEFAULT_RECIPIENT example_config) signer_address)) = Inr ?s
      \<and> py_int (v3_amount_in example_v3_body) = Inr 1000000"
    by (simp add: example_config_def example_v3_body_def or_str_def example_addresses
        py_int_examples)
  note t = swap_handlers_do_not_validate [where cfg = example_config and a = signer_address]
  note v2 = t [THEN conjunct1, rule_format]
  note v3 = t [THEN conjunct2, THEN conjunct1, rule_format]
  have g2: "v2_amount_out_min stale_v2_body = Some ''0'' \<and> py_int ''0'' = Inr 0"
    by (simp add: stale_v2_body_def py_int_examples)
  have q2: "v2_amount_out_min example_v2_body = None
      \<and> getAmountsOut example_world 1000000 [?a, ?b] = Inr [1000000, 2000000]
      \<and> [1000000, 2000000] \<noteq> ([] :: int list)"
    by (simp add: example_v2_body_def example_world_def)
  have f2: "v2_amount_out_min example_v2_body = None
      \<and> getAmountsOut no_quote_world 1000000 [?a, ?b] = Inl (RPCError ''execution reverted'')"
    by (simp add: example_v2_body_def no_quote_world_def)
  have e2: "v2_amount_out_min example_v2_body = None
      \<and> getAmountsOut empty_quote_world 1000000 [?a, ?b] = Inr []"
    by (simp add: example_v2_body_def empty_quote_world_def)
  have g3: "v3_amount_out_min stale_v3_body = Some ''0'' \<and> py_int ''0'' = Inr 0"
    by (simp add: stale_v3_body_def py_int_examples)
  have q3: "v3_amount_out_min example_v3_body = None
      \<and> quoteExactInputSingle example_world ?a ?b (v3_fee example_v3_body) 1000000
           (v3_sqrt_price_limit_x96 example_v3_body) = Inr 2000000"
    by (simp add: example_v3_body_def example_world_def)
  have f3: "v3_amount_out_min example_v3_body = None
      \<and> quoteExactInputSingle no_quote_world ?a ?b (v3_fee example_v3_body) 1000000
           (v3_sqrt_price_limit_x96 example_v3_body) = Inl (RPCError ''execution reverted'')"
    by (simp add: example_v3_body_def no_quote_world_def)
  have b1: "build_transaction no_build_world ?call (sender signer_address)
      = Inl (RPCError ''execution reverted'')"
    by (simp add: no_build_world_def)
  have b2: "build_transaction example_world ?call (sender signer_address)
      = Inr ((sender signer_address)(''to'' \<mapsto> VStr ''router''))"
    by (simp add: example_world_def)
  have n: "now_plus example_world 300 = 1700000300"
    by (simp add: now_plus_def example_world_def)
  have c1: "v2_swap example_config example_world stale_v2_body =
     submit_400 ''v2 swap failed'' example_config example_world signer_address
       (SwapExactTokensForTokens 0 0 [?a] ?s 1)"
    using v2 [OF wf_stale2, THEN conjunct1, rule_format, OF g2, of example_world]
    by (simp add: stale_v2_body_def or_int_def)
  have c2: "v2_swap example_config example_world example_v2_body =
     submit_400 ''v2 swap failed'' example_config example_world signer_address
       (SwapExactTokensForTokens 1000000 1990000 [?a, ?b] ?s 1700000300)"
    using v2 [OF wf_ex2, THEN conjunct2, THEN conjunct1, rule_format, OF q2]
    by (simp add: example_v2_body_def or_int_def n)
  have c3: "v2_swap example_config no_quote_world example_v2_body
     = ([], Inl (RPCError ''execution reverted''))"
    using v2 [OF wf_ex2, THEN conjunct2, THEN conjunct2, THEN conjunct1, rule_format, OF f2]
    by simp
  have c4: "v2_swap example_config empty_quote_world example_v2_body = ([], Inl IndexError)"
    using v2 [OF wf_ex2, THEN conjunct2, THEN conjunct2, THEN conjunct2, rule_format, OF e2]
    by simp
  have c5: "v3_swap example_config example_world stale_v3_body =
     submit_400 ''v3 swap failed'' example_config example_world signer_address
       (ExactInputSingle ?a ?b 3000 ?s 1 0 0 0)"
    using v3 [OF wf_stale3, THEN conjunct1, rule_format, OF g3, of example_world]
    by (simp add: stale_v3_body_def or_int_def)
  have c6: "v3_swap example_config example_world example_v3_body =
     submit_400 ''v3 swap failed'' example_config example_world signer_address
       (ExactInputSingle ?a ?b 3000 ?s 1700000300 1000000 1990000 0)"
    using v3 [OF wf_ex3, THEN conjunct2, THEN conjunct1, rule_format, OF q3]
    by (simp add: example_v3_body_def or_int_def n)
  have c7: "v3_swap example_config no_quote_world example_v3_body
     = ([], Inl (RPCError ''execution reverted''))"
    using v3 [OF wf_ex3, THEN conjunct2, THEN conjunct2, rule_format, OF f3]
    by simp
  have c8: "submit_400 ''v2 swap failed'' example_config no_build_world signer_address ?call
      = ([], Inl (HTTPException 400 (Caused ''v2 swap failed'' (RPCError ''execution reverted''))))"
    using t [THEN conjunct2, THEN conjunct2, THEN conjunct1, rule_format, OF b1] by simp
  have c9: "submit_400 ''v2 swap failed'' example_config example_world signer_address ?call
      = ([(Primary, [1, 2, 3])], Inr ''0xaa'')"
    using t [THEN conjunct2, THEN conjunct2, THEN conjunct2, rule_format, OF b2,
        of "''v2 swap failed''"]
    by (simp add: example_fill_and_send failed_400_def)
  show ?thesis using c1 c2 c3 c4 c5 c6 c7 c8 c9 by (intro conjI)
qed

section \<open>Claims about rate limiting\<close>














section \<open>Claims about the fee estimate\<close>

lemma bit_length_bounds:
  "0 < n \<Longrightarrow> 2 ^ (bit_length n - 1) \<le> n \<and> n < 2 ^ bit_length n"
proof (induction n rule: bit_length.induct)
  case (1 n)
  show ?case
  proof (cases "n div 2 = 0")
    case True
    with 1(2) have "n = 1" by presburger
    then show ?thesis by (simp add: bit_length.simps)
  next
    case False
    then have ih: "2 ^ (bit_length (n div 2) - 1) \<le> n div 2" "n div 2 < 2 ^ bit_length (n div 2)"
      using 1 by simp_all
    have pos: "0 < bit_length (n div 2)" using False by (subst bit_length.simps) simp
    have bl: "bit_length n = Suc (bit_length (n div 2))"
      using 1(2) by (subst bit_length.simps) simp
    have "2 ^ (bit_length n - 1) = 2 * 2 ^ (bit_length (n div 2) - 1)"
      using pos bl by (metis Suc_pred diff_Suc_1 power_Suc)
    also have "\<dots> \<le> 2 * (n div 2)" using ih(1) by simp
    also have "\<dots> \<le> n" by simp
    finally have a: "2 ^ (bit_length n - 1) \<le> n" .
    have "n < 2 * (n div 2) + 2" by presburger
    also have "\<dots> \<le> 2 * 2 ^ bit_length (n div 2)" using ih(2) by simp
    finally have b: "n < 2 ^ bit_length n" using bl by simp
    show ?thesis using a b by simp
  qed
qed

text \<open>R1\<close>
lemma round_scaled_div:
  fixes A B P :: nat
  assumes "0 < B" "0 < P" "B < 2 * P"
  shows "round_half_even (A * P) B div P = A div B"
proof -
  define q0 where "q0 = A div B"
  define r0 where "r0 = A mod B"
  define X where "X = r0 * P"
  define d where "d = X div B"
  define r where "r = X mod B"
  have A: "A = q0 * B + r0" by (simp add: q0_def r0_def)
  have r0: "r0 < B" using assms(1) by (simp add: r0_def)
  have AP: "A * P = (q0 * P) * B + X" by (simp add: A X_def algebra_simps)
  have dv: "(A * P) div B = q0 * P + d" using assms(1) by (simp add: AP d_def)
  have md: "(A * P) mod B = r" by (simp add: AP r_def)
  have X: "X = d * B + r" by (simp add: d_def r_def)
  have r: "r < B" using assms(1) by (simp add: r_def)
  have "r0 + 1 \<le> B" using r0 by simp
  then have "(r0 + 1) * P \<le> B * P" by (rule mult_le_mono1)
  then have XP: "X + P \<le> B * P" by (simp add: X_def algebra_simps)
  have dP: "d < P"
  proof (rule ccontr)
    assume "\<not> d < P"
    then have "P \<le> d" by simp
    then have "B * P \<le> B * d" by (rule mult_le_mono2)
    also have "B * d \<le> X" by (simp add: X)
    finally have "B * P \<le> X" .
    with XP have "P = 0" by simp
    with assms(2) show False by simp
  qed
  have up: "d + 1 < P" if h: "B \<le> 2 * r"
  proof (rule ccontr)
    assume "\<not> d + 1 < P"
    with dP have "P = d + 1" by simp
    then have "B * P = d * B + B" by (simp add: algebra_simps)
    with X XP have "r + P \<le> B" by simp
    with h assms(3) show False by simp
  qed
  define m where "m = round_half_even (A * P) B"
  have "m = q0 * P + d \<or> (m = q0 * P + d + 1 \<and> B \<le> 2 * r)"
    unfolding m_def round_half_even_def by (auto simp: Let_def dv md)
  then have "\<exists>x. m = q0 * P + x \<and> x < P" using dP up by auto
  then obtain x where "m = x + q0 * P" "x < P" by (auto simp: add.commute)
  then have "m div P = q0" using assms(2) by simp
  then show ?thesis by (simp add: m_def q0_def)
qed


lemma round_half_even_le: "round_half_even n B \<le> n div B + 1"
  by (simp add: round_half_even_def Let_def)

text \<open>R2\<close>
lemma round_tiny_div:
  fixes A B :: nat
  assumes "A < 2 ^ 53" "2 * 2 ^ 1074 \<le> B"
  shows "round_half_even (A * 2 ^ 1074) B div 2 ^ 1074 = A div B"
proof -
  have p: "(2::nat) ^ 53 \<le> 2 ^ 1074" by (rule power_increasing) simp_all
  have "A < B" using assms p by simp
  then have z: "A div B = 0" by simp
  have "(A * 2 ^ 1074) div B \<le> (A * 2 ^ 1074) div (2 * 2 ^ 1074)"
    using assms(2) by (intro div_le_mono2) simp_all
  also have "\<dots> = A div 2" by simp
  finally have "round_half_even (A * 2 ^ 1074) B \<le> A div 2 + 1"
    using round_half_even_le [of "A * 2 ^ 1074" B] by simp
  also have "\<dots> < 2 ^ 53" using assms(1) by simp
  also have "\<dots> \<le> 2 ^ 1074" by (rule p)
  finally show ?thesis by (simp add: z)
qed

lemma quotient_exponent_lower:
  assumes "0 < A" "0 < B"
  shows "if 0 \<le> quotient_exponent A B then B * 2 ^ nat (quotient_exponent A B) \<le> A
         else B \<le> A * 2 ^ nat (- quotient_exponent A B)"
proof -
  define a where "a = bit_length A"
  define b where "b = bit_length B"
  define d where "d = int a - int b"
  have A: "2 ^ (a - 1) \<le> A" "A < 2 ^ a" and B: "2 ^ (b - 1) \<le> B" "B < 2 ^ b"
    using bit_length_bounds [OF assms(1)] bit_length_bounds [OF assms(2)]
    by (simp_all add: a_def b_def)
  have a1: "1 \<le> a" using assms(1) unfolding a_def by (subst bit_length.simps) simp
  have b1: "1 \<le> b" using assms(2) unfolding b_def by (subst bit_length.simps) simp
  define cond where "cond = (if 0 \<le> d then B * 2 ^ nat d \<le> A else B \<le> A * 2 ^ nat (- d))"
  have k: "quotient_exponent A B = (if cond then d else d - 1)"
    by (simp add: quotient_exponent_def Let_def cond_def d_def a_def b_def)
  show ?thesis
  proof (cases cond)
    case True
    then show ?thesis using k by (simp add: cond_def)
  next
    case False
    then have k': "quotient_exponent A B = d - 1" using k by simp
    show ?thesis
    proof (cases "0 \<le> d - 1")
      case True
      then have n: "nat (d - 1) = a - b - 1" and ab: "b + 1 \<le> a" by (simp_all add: d_def)
      have "B * 2 ^ (a - b - 1) \<le> 2 ^ b * 2 ^ (a - b - 1)"
        using B(2) by (intro mult_le_mono1) simp
      also have "\<dots> = 2 ^ (b + (a - b - 1))" by (simp add: power_add)
      also have "b + (a - b - 1) = a - 1" using ab by simp
      finally have "B * 2 ^ (a - b - 1) \<le> A" using A(1) by simp
      then show ?thesis using True k' n by simp
    next
      case False
      then have n: "nat (- (d - 1)) = b + 1 - a" and ab: "a \<le> b" by (simp_all add: d_def)
      have "B < 2 ^ b" by (rule B(2))
      also have "b = (a - 1) + (b + 1 - a)" using ab a1 by simp
      also have "(2::nat) ^ \<dots> = 2 ^ (a - 1) * 2 ^ (b + 1 - a)" by (simp only: power_add)
      also have "\<dots> \<le> A * 2 ^ (b + 1 - a)" using A(1) by (intro mult_le_mono1)
      finally have "B \<le> A * 2 ^ (b + 1 - a)" by simp
      then show ?thesis using False k' n by simp
    qed
  qed
qed

lemma quotient_exponent_small:
  assumes "0 < A" "0 < B" "A < 2 ^ 53"
  shows "quotient_exponent A B \<le> 52 \<and> B < 2 * 2 ^ nat (52 - quotient_exponent A B)"
proof -
  define k where "k = quotient_exponent A B"
  note lb = quotient_exponent_lower [OF assms(1,2), folded k_def]
  show ?thesis unfolding k_def [symmetric]
  proof (cases "0 \<le> k")
    case True
    then have h: "B * 2 ^ nat k \<le> A" using lb by simp
    have k52: "k \<le> 52"
    proof (rule ccontr)
      assume "\<not> k \<le> 52"
      then have "53 \<le> nat k" by simp
      then have "(2::nat) ^ 53 \<le> 2 ^ nat k" by (intro power_increasing) simp_all
      also have "\<dots> \<le> B * 2 ^ nat k" using assms(2) by simp
      finally show False using h assms(3) by simp
    qed
    have "B * 2 ^ nat k < 2 ^ 53" using h assms(3) by simp
    also have "(53::nat) = nat (52 - k) + 1 + nat k" using True k52 by simp
    also have "(2::nat) ^ \<dots> = (2 * 2 ^ nat (52 - k)) * 2 ^ nat k" by (simp add: power_add)
    finally have "B < 2 * 2 ^ nat (52 - k)" by simp
    then show "k \<le> 52 \<and> B < 2 * 2 ^ nat (52 - k)" using k52 by simp
  next
    case False
    then have h: "B \<le> A * 2 ^ nat (- k)" using lb by simp
    have "A * 2 ^ nat (- k) < 2 ^ 53 * 2 ^ nat (- k)" using assms(3) by simp
    also have "\<dots> = 2 ^ (53 + nat (- k))" by (simp add: power_add)
    also have "53 + nat (- k) = Suc (nat (52 - k))" using False by simp
    finally have "B < 2 * 2 ^ nat (52 - k)" using h by simp
    then show "k \<le> 52 \<and> B < 2 * 2 ^ nat (52 - k)" using False by simp
  qed
qed

lemma true_divide_exact:
  assumes "0 < B" "A < 2 ^ 53"
  shows "\<exists>f. true_divide A B = Inr f \<and> float_trunc f = A div B"
proof (cases "A = 0")
  case True
  then show ?thesis using assms(1) by (simp add: true_divide_def float_trunc_def)
next
  case False
  then have A: "0 < A" by simp
  define k where "k = quotient_exponent A B"
  define e where "e = max (k - 52) (- 1074)"
  note sm = quotient_exponent_small [OF A assms, folded k_def]
  have e0: "e \<le> 0" using sm by (simp add: e_def)
  show ?thesis
  proof (cases "e = 0")
    case True
    then have "k = 52" using sm by (simp add: e_def)
    then have "B < 2 * 1" using sm by simp
    then have m: "round_half_even (A * 1) B div 1 = A div B"
      using assms(1) by (intro round_scaled_div) simp_all
    have "A div B < 2 ^ 1024"
    proof -
      have "A div B \<le> A" by simp
      also have "A < 2 ^ 53" by (rule assms(2))
      also have "(2::nat) ^ 53 \<le> 2 ^ 1024" by (rule power_increasing) simp_all
      finally show ?thesis .
    qed
    then show ?thesis using assms(1) False True m
      by (simp add: true_divide_def float_trunc_def Let_def k_def [symmetric] e_def [symmetric])
  next
    case False
    then have neg: "e < 0" using e0 by simp
    define s where "s = nat (- e)"
    have td: "true_divide A B = Inr (round_half_even (A * 2 ^ s) B, e)"
      using assms(1) \<open>A \<noteq> 0\<close> neg
      by (simp add: true_divide_def Let_def k_def [symmetric] e_def [symmetric] s_def)
    have ft: "float_trunc (round_half_even (A * 2 ^ s) B, e) = round_half_even (A * 2 ^ s) B div 2 ^ s"
      using neg by (simp add: float_trunc_def s_def)
    have "round_half_even (A * 2 ^ s) B div 2 ^ s = A div B"
    proof (cases "B < 2 * 2 ^ s")
      case True
      then show ?thesis using assms(1) by (intro round_scaled_div) simp_all
    next
      case False
      have "s = 1074"
      proof (rule ccontr)
        assume "s \<noteq> 1074"
        then have "e = k - 52" using neg by (auto simp: e_def s_def max_def split: if_splits)
        then have "s = nat (52 - k)" by (simp add: s_def)
        with sm False show False by simp
      qed
      with False have "2 * 2 ^ 1074 \<le> B" by simp
      from round_tiny_div [OF assms(2) this] \<open>s = 1074\<close> show ?thesis by simp
    qed
    then show ?thesis using td ft by simp
  qed
qed

lemma int_of_quotient_exact:
  assumes "0 \<le> a" "a < 2 ^ 53" "0 < b"
  shows "int_of_quotient a b = Inr (a div b)"
proof -
  have "nat \<bar>a\<bar> < 2 ^ 53" using assms by (simp add: nat_less_iff)
  moreover have "0 < nat \<bar>b\<bar>" using assms by simp
  ultimately obtain f where f: "true_divide (nat \<bar>a\<bar>) (nat \<bar>b\<bar>) = Inr f"
    "float_trunc f = nat \<bar>a\<bar> div nat \<bar>b\<bar>"
    using true_divide_exact by blast
  have "int (nat \<bar>a\<bar> div nat \<bar>b\<bar>) = a div b" using assms by (simp add: zdiv_int)
  then show ?thesis using f assms
    by (cases "a = 0") (simp_all add: int_of_quotient_def and_then_def)
qed

lemma map_result_first:
  "(\<forall>r\<in>set rs. r \<noteq> []) \<Longrightarrow> map_result (\<lambda>r. py_nth r 0) rs = Inr (map hd rs)"
  by (induction rs) (simp_all add: py_nth_def hd_conv_nth)

lemma concat_take_1: "(\<forall>r\<in>set rs. r \<noteq> []) \<Longrightarrow> concat (map (take 1) rs) = map hd rs"
proof (induction rs)
  case Nil
  then show ?case by simp
next
  case (Cons r rs)
  then obtain x xs where "r = x # xs" by (cases r) auto
  then show ?case using Cons by simp
qed

lemma reward_mean_floor:
  assumes "\<forall>r\<in>set rs. r \<noteq> []"
  shows "\<lfloor>reward_mean rs\<rfloor> = sum_list (map hd rs) div int (length rs)"
proof -
  have "reward_mean rs
      = real_of_int (sum_list (map hd rs)) / real_of_int (int (length rs))"
    using assms by (simp only: reward_mean_def concat_take_1)
  then show ?thesis by (simp only: floor_divide_of_int_eq)
qed

lemma mean_tip_exact:
  assumes "rs \<noteq> []" "\<forall>r\<in>set rs. r \<noteq> []"
    "0 \<le> sum_list (map hd rs)" "sum_list (map hd rs) < 2 ^ 53"
  shows "mean_tip rs = Inr \<lfloor>reward_mean rs\<rfloor>"
proof -
  have n: "0 < int (length rs)" using assms(1) by simp
  have "1 \<le> length rs" using assms(1) by (cases rs) simp_all
  then have m: "max (int (length rs)) 1 = int (length rs)" by simp
  have "int_of_quotient (sum_list (map hd rs)) (int (length rs))
      = Inr (sum_list (map hd rs) div int (length rs))"
    using assms(3,4) n by (rule int_of_quotient_exact)
  then show ?thesis
    using assms(2) m
    by (simp add: mean_tip_def map_result_first and_then_def reward_mean_floor)
qed

text \<open>
  Claim C5, as the code has it. With a fee history that has a base fee, the tip is the
  mean of the reward samples (the first reward of each block) cut to an integer, which is
  the floor of the exact mean whenever the sum of the samples is not negative and is below
  \<open>2^53\<close>, or 1 gwei when the reward data is absent or empty, and the maximum fee is the
  latest base fee plus twice the tip. When the fee history query fails or returns no base
  fee, the result is the node's gas price with a tip of 1 gwei, and the error of the gas
  price query when that fails too.
\<close>

theorem suggest_fees_estimate:
  "(fee_history w = Inr hist \<and> baseFeePerGas hist \<noteq> [] \<longrightarrow>
      (reward hist = Some rewards \<and> rewards \<noteq> [] \<and> (\<forall>r\<in>set rewards. r \<noteq> [])
         \<and> 0 \<le> sum_list (map hd rewards) \<and> sum_list (map hd rewards) < 2 ^ 53 \<longrightarrow>
       suggest_fees w
         = Inr (last (baseFeePerGas hist) + 2 * \<lfloor>reward_mean rewards\<rfloor>, \<lfloor>reward_mean rewards\<rfloor>))
      \<and> (reward hist = None \<or> reward hist = Some [] \<longrightarrow>
           suggest_fees w = Inr (last (baseFeePerGas hist) + 2 * gwei, gwei)))
   \<and> ((\<exists>e. fee_history w = Inl e) \<or> (\<exists>h. fee_history w = Inr h \<and> baseFeePerGas h = []) \<longrightarrow>
        suggest_fees w = (case gas_price w of Inl e \<Rightarrow> Inl e | Inr gp \<Rightarrow> Inr (gp, gwei)))
   \<and> gwei = 10 ^ 9"
proof -
  have a: "suggest_fees w
         = Inr (last (baseFeePerGas hist) + 2 * \<lfloor>reward_mean rewards\<rfloor>, \<lfloor>reward_mean rewards\<rfloor>)"
    if "fee_history w = Inr hist \<and> baseFeePerGas hist \<noteq> []"
      and h: "reward hist = Some rewards \<and> rewards \<noteq> [] \<and> (\<forall>r\<in>set rewards. r \<noteq> [])
         \<and> 0 \<le> sum_list (map hd rewards) \<and> sum_list (map hd rewards) < 2 ^ 53"
  proof -
    have "mean_tip rewards = Inr \<lfloor>reward_mean rewards\<rfloor>"
      using h by (intro mean_tip_exact) simp_all
    then show ?thesis
      using that
      by (simp add: suggest_fees_def fees_from_history_def and_then_def py_last_def)
  qed
  have b: "suggest_fees w = Inr (last (baseFeePerGas hist) + 2 * gwei, gwei)"
    if "fee_history w = Inr hist \<and> baseFeePerGas hist \<noteq> []"
      and "reward hist = None \<or> reward hist = Some []"
    using that
    by (auto simp: suggest_fees_def fees_from_history_def and_then_def py_last_def)
  have c: "suggest_fees w = (case gas_price w of Inl e \<Rightarrow> Inl e | Inr gp \<Rightarrow> Inr (gp, gwei))"
    if "(\<exists>e. fee_history w = Inl e) \<or> (\<exists>h. fee_history w = Inr h \<and> baseFeePerGas h = [])"
    using that
    by (auto simp: suggest_fees_def fees_from_history_def and_then_def py_last_def
        split: sum.splits)
  have g: "gwei = 10 ^ 9" by (simp add: gwei_def)
  show ?thesis
    apply (rule conjI)
     apply (rule impI)
     apply (rule conjI)
      apply (rule impI)
      apply (erule (1) a)
     apply (rule impI)
     apply (erule (1) b)
    apply (rule conjI)
     apply (rule impI)
     apply (erule c)
    apply (rule g)
    done
qed

text \<open>
  The samples 1 and 2 have mean 3/2 and give the tip 1; the single sample \<open>2^53 + 1\<close> gives
  the tip \<open>2^53\<close>, the double nearest to it.
\<close>

theorem suggest_fees_mean_counterexample:
  "suggest_fees (history_node [100] (Some [[1], [2]])) = Inr (102, 1)
   \<and> reward_mean [[1], [2]] = 3 / 2
   \<and> suggest_fees (history_node [100] (Some [[9007199254740993]]))
       = Inr (18014398509482084, 9007199254740992)
   \<and> reward_mean [[9007199254740993]] = 9007199254740993"
  by (simp add: suggest_fees_def fees_from_history_def history_node_def example_node_def
      and_then_def py_last_def mean_tip_def py_nth_def reward_mean_def float_eval)

theorem suggest_fees_estimate_witness:
  "suggest_fees example_node = Inr (120, 5)
   \<and> suggest_fees (history_node [100] None) = Inr (2000000100, 1000000000)
   \<and> suggest_fees (history_node [100] (Some [])) = Inr (2000000100, 1000000000)
   \<and> suggest_fees no_history_node = Inr (90, 1000000000)
   \<and> suggest_fees (history_node [] (Some [[4]])) = Inr (90, 1000000000)
   \<and> suggest_fees (no_history_node\<lparr>gas_price := Inl (RPCError ''down'')\<rparr>)
       = Inl (RPCError ''down'')"
proof -
  have m: "\<lfloor>reward_mean [[4], [6]]\<rfloor> = 5" by (simp add: reward_mean_def)
  have r1: "suggest_fees example_node = Inr (120, 5)"
    using suggest_fees_estimate [of example_node
        "\<lparr>baseFeePerGas = [100, 110], reward = Some [[4], [6]]\<rparr>" "[[4], [6]]"] m
    by (simp add: example_node_def)
  have r2: "suggest_fees (history_node [100] None) = Inr (2000000100, 1000000000)"
    using suggest_fees_estimate [of "history_node [100] None"
        "\<lparr>baseFeePerGas = [100], reward = None\<rparr>" "[]"]
    by (simp add: history_node_def example_node_def)
  have r3: "suggest_fees (history_node [100] (Some [])) = Inr (2000000100, 1000000000)"
    using suggest_fees_estimate [of "history_node [100] (Some [])"
        "\<lparr>baseFeePerGas = [100], reward = Some []\<rparr>" "[]"]
    by (simp add: history_node_def example_node_def)
  have r4: "suggest_fees no_history_node = Inr (90, 1000000000)"
    using suggest_fees_estimate [of no_history_node undefined "[]"]
    by (simp add: no_history_node_def example_node_def)
  have r5: "suggest_fees (history_node [] (Some [[4]])) = Inr (90, 1000000000)"
    using suggest_fees_estimate [of "history_node [] (Some [[4]])" undefined "[]"]
    by (simp add: history_node_def example_node_def)
  have r6: "suggest_fees (no_history_node\<lparr>gas_price := Inl (RPCError ''down'')\<rparr>)
       = Inl (RPCError ''down'')"
    using suggest_fees_estimate [of "no_history_node\<lparr>gas_price := Inl (RPCError ''down'')\<rparr>"
        undefined "[]"]
    by (simp add: no_history_node_def example_node_def)
  show ?thesis using r1 r2 r3 r4 r5 r6 by simp
qed

section \<open>Claims about the path encoder\<close>

lemma be3_roundtrip:
  assumes "0 \<le> f" "f < 16777216"
  shows "be3_value (fee_be3 f) = f"
proof -
  have hi: "f div 65536 mod 256 = f div 65536"
  proof -
    have "0 \<le> f div 65536 \<and> f div 65536 < 256" using assms by linarith
    then show ?thesis by simp
  qed
  have lo: "f mod 65536 = 256 * (f div 256 mod 256) + f mod 256"
    using zmod_zmult2_eq [of 256 f 256] by simp
  have "f = 65536 * (f div 65536) + f mod 65536" by simp
  then have "f = 65536 * (f div 65536) + 256 * (f div 256 mod 256) + f mod 256"
    using lo by simp
  then show ?thesis
    unfolding be3_value_def fee_be3_def by (simp add: uint_word_of_int hi)
qed


lemma lower_hex_table:
  assumes "j < 6"
  shows "is_hex_digit (''abcdefghijklmnopqrstuvwxyz'' ! j)
       \<and> hex_digit_val (''abcdefghijklmnopqrstuvwxyz'' ! j) = 10 + j"
proof -
  from assms have "j \<in> {0, 1, 2, 3, 4, 5}" by auto
  then show ?thesis by (auto simp: is_hex_digit_def hex_digit_val_def)
qed

lemma lower_char_hex:
  assumes "is_hex_digit c"
  shows "is_hex_digit (lower_char c) \<and> hex_digit_val (lower_char c) = hex_digit_val c"
proof -
  define n where "n = (of_char c :: nat)"
  show ?thesis
  proof (cases "65 \<le> n \<and> n \<le> 70")
    case True
    then have l: "lower_char c = ''abcdefghijklmnopqrstuvwxyz'' ! (n - 65)"
      by (simp add: lower_char_def Let_def n_def [symmetric])
    have v: "hex_digit_val c = 10 + (n - 65)"
      using True by (simp add: hex_digit_val_def Let_def n_def [symmetric])
    have "n - 65 < 6" using True by arith
    from lower_hex_table [OF this] show ?thesis by (simp add: l v)
  next
    case False
    have "(48 \<le> n \<and> n \<le> 57) \<or> (97 \<le> n \<and> n \<le> 102) \<or> (65 \<le> n \<and> n \<le> 70)"
      using assms by (simp add: is_hex_digit_def Let_def n_def [symmetric])
    with False have "\<not> (65 \<le> n \<and> n \<le> 90)" by arith
    then have "lower_char c = c" by (auto simp: lower_char_def Let_def n_def [symmetric])
    then show ?thesis using assms by simp
  qed
qed

lemma hex_pairs_lower:
  "list_all is_hex_digit h \<Longrightarrow> hex_pairs (map lower_char h) = hex_pairs h"
  by (induction h rule: hex_pairs.induct) (simp_all add: lower_char_hex)

lemma length_hex_pairs: "length (hex_pairs h) = length h div 2"
  by (induction h rule: hex_pairs.induct) simp_all

lemma remove_0x_prefix_0x: "remove_0x_prefix (''0x'' @ h) = h"
  by (simp add: remove_0x_prefix_def)

lemma token_bytes_address:
  assumes "is_address t"
  shows "token_bytes t = Inr (address_raw t)" and "length (address_raw t) = 20"
proof -
  let ?h = "remove_0x_prefix t"
  have h: "length ?h = 40" "list_all is_hex_digit ?h" using assms by (simp_all add: is_address_def)
  have l: "list_all is_hex_digit (map lower_char ?h)"
    using h(2) by (simp add: list_all_iff lower_char_hex)
  show "token_bytes t = Inr (address_raw t)"
    using assms h l
    by (simp add: token_bytes_def to_checksum_address_def and_then_def to_bytes_hexstr_def
        remove_0x_prefix_0x [simplified] hex_pairs_lower address_raw_def)
  show "length (address_raw t) = 20" using h by (simp add: address_raw_def length_hex_pairs)
qed

lemma token_bytes_invalid:
  "\<not> is_address t \<Longrightarrow> token_bytes t = Inl (ValueError ''not a hex address'')"
  by (simp add: token_bytes_def to_checksum_address_def and_then_def)

lemma to_bytes_3_big_eq:
  "to_bytes_3_big f = (if fee_fits f then Inr (fee_be3 f) else Inl OverflowError)"
  by (auto simp: to_bytes_3_big_def fee_be3_def fee_fits_def)

lemma path_layout_Cons:
  "ts \<noteq> [] \<Longrightarrow> path_layout (t # ts) (f # fs) = address_raw t @ fee_be3 f @ path_layout ts fs"
  by (cases ts) simp_all

lemma encode_loop_layout:
  assumes "length tokens = Suc (length fees)"
    and "\<forall>t\<in>set tokens. is_address t" and "\<forall>f\<in>set fees. fee_fits f"
  shows "i + k = length fees \<Longrightarrow>
    and_then (encode_loop tokens fees i k path) (\<lambda>p. Inr (p @ address_raw (last tokens)))
      = Inr (path @ path_layout (drop i tokens) (drop i fees))"
proof (induction k arbitrary: i path)
  case 0
  then have i: "i = length fees" by simp
  have "tokens \<noteq> []" using assms(1) by auto
  have "drop i tokens = [last tokens]"
    using assms(1) i \<open>tokens \<noteq> []\<close>
    by (metis append_butlast_last_id append_eq_conv_conj diff_Suc_1 length_butlast)
  then show ?case using i by (simp add: and_then_def)
next
  case (Suc k)
  then have i: "i < length fees" "i < length tokens" using assms(1) by simp_all
  have ok: "is_address (tokens ! i)" "fee_fits (fees ! i)" using assms(2,3) i by simp_all
  have dt: "drop i tokens = tokens ! i # drop (Suc i) tokens" using i by (simp add: Cons_nth_drop_Suc)
  have df: "drop i fees = fees ! i # drop (Suc i) fees" using i by (simp add: Cons_nth_drop_Suc)
  have ne: "drop (Suc i) tokens \<noteq> []" using assms(1) i by simp
  have step: "encode_loop tokens fees i (Suc k) path
      = encode_loop tokens fees (Suc i) k (path @ address_raw (tokens ! i) @ fee_be3 (fees ! i))"
    using i ok by (simp add: py_nth_def and_then_def token_bytes_address to_bytes_3_big_eq)
  have "Suc i + k = length fees" using Suc.prems by simp
  from Suc.IH [OF this] show ?case
    by (simp add: step dt df path_layout_Cons [OF ne] del: encode_loop.simps)
qed

lemma encode_loop_fails:
  assumes "length tokens = Suc (length fees)"
  shows "i + k = length fees \<Longrightarrow>
    (\<exists>e. encode_loop tokens fees i k path = Inl e)
      = (\<exists>j. i \<le> j \<and> j < length fees \<and> (\<not> is_address (tokens ! j) \<or> \<not> fee_fits (fees ! j)))"
proof (induction k arbitrary: i path)
  case 0
  then show ?case by auto
next
  case (Suc k)
  then have i: "i < length fees" "i < length tokens" using assms(1) by simp_all
  have nx: "Suc i + k = length fees" using Suc.prems by simp
  show ?case
  proof (cases "is_address (tokens ! i) \<and> fee_fits (fees ! i)")
    case True
    then have step: "encode_loop tokens fees i (Suc k) path
        = encode_loop tokens fees (Suc i) k (path @ address_raw (tokens ! i) @ fee_be3 (fees ! i))"
      using i by (simp add: py_nth_def and_then_def token_bytes_address to_bytes_3_big_eq)
    have "(\<exists>j. i \<le> j \<and> j < length fees \<and> (\<not> is_address (tokens ! j) \<or> \<not> fee_fits (fees ! j)))
        = (\<exists>j. Suc i \<le> j \<and> j < length fees \<and> (\<not> is_address (tokens ! j) \<or> \<not> fee_fits (fees ! j)))"
      using True by (metis Suc_leI le_neq_implies_less Suc_leD)
    then show ?thesis using Suc.IH [OF nx] by (simp add: step del: encode_loop.simps)
  next
    case False
    then have "\<exists>e. encode_loop tokens fees i (Suc k) path = Inl e"
      using i
      by (cases "is_address (tokens ! i)")
        (simp_all add: py_nth_def and_then_def token_bytes_address token_bytes_invalid
          to_bytes_3_big_eq)
    moreover have "\<exists>j. i \<le> j \<and> j < length fees \<and> (\<not> is_address (tokens ! j) \<or> \<not> fee_fits (fees ! j))"
      using False i by auto
    ultimately show ?thesis by simp
  qed
qed


lemma encode_loop_error:
  assumes "length tokens = Suc (length fees)"
  shows "i + k = length fees \<Longrightarrow> encode_loop tokens fees i k path = Inl e \<Longrightarrow>
    (e = OverflowError \<and> (\<exists>f\<in>set fees. \<not> fee_fits f))
    \<or> (e = ValueError ''not a hex address'' \<and> (\<exists>t\<in>set tokens. \<not> is_address t))"
proof (induction k arbitrary: i path)
  case 0
  then show ?case by simp
next
  case (Suc k)
  then have i: "i < length fees" "i < length tokens" using assms(1) by simp_all
  have nx: "Suc i + k = length fees" using Suc.prems by simp
  show ?case
  proof (cases "is_address (tokens ! i)")
    case False
    then have "encode_loop tokens fees i (Suc k) path = Inl (ValueError ''not a hex address'')"
      using i by (simp add: py_nth_def and_then_def token_bytes_invalid)
    then have "e = ValueError ''not a hex address''" using Suc.prems(2) by simp
    moreover have "\<exists>t\<in>set tokens. \<not> is_address t" using False i(2) nth_mem by blast
    ultimately show ?thesis by blast
  next
    case True
    show ?thesis
    proof (cases "fee_fits (fees ! i)")
      case False
      then have "encode_loop tokens fees i (Suc k) path = Inl OverflowError"
        using i True by (simp add: py_nth_def and_then_def token_bytes_address to_bytes_3_big_eq)
      then have "e = OverflowError" using Suc.prems(2) by simp
      moreover have "\<exists>f\<in>set fees. \<not> fee_fits f" using False i(1) nth_mem by blast
      ultimately show ?thesis by blast
    next
      case fits: True
      have step: "encode_loop tokens fees i (Suc k) path
          = encode_loop tokens fees (Suc i) k (path @ address_raw (tokens ! i) @ fee_be3 (fees ! i))"
        using i True fits
        by (simp add: py_nth_def and_then_def token_bytes_address to_bytes_3_big_eq)
      have "encode_loop tokens fees (Suc i) k
          (path @ address_raw (tokens ! i) @ fee_be3 (fees ! i)) = Inl e"
        using Suc.prems(2) by (simp only: step)
      then show ?thesis by (rule Suc.IH [OF nx])
    qed
  qed
qed

lemma encode_v3_path_length_error:
  "int (length fees) \<noteq> int (length tokens) - 1 \<Longrightarrow>
     encode_v3_path tokens fees = Inl (ValueError ''fees length must equal tokens length - 1'')"
  by (simp add: encode_v3_path_def)

lemma encode_v3_path_unfold:
  assumes "length tokens = Suc (length fees)"
  shows "encode_v3_path tokens fees =
     and_then (encode_loop tokens fees 0 (length fees) []) (\<lambda>path.
     and_then (token_bytes (last tokens)) (\<lambda>tb. Inr (path @ tb)))"
proof -
  have "tokens \<noteq> []" using assms by auto
  then show ?thesis using assms by (simp add: encode_v3_path_def py_last_def and_then_def)
qed

lemma encode_v3_path_ok:
  assumes "length tokens = Suc (length fees)"
    and "\<forall>t\<in>set tokens. is_address t" and "\<forall>f\<in>set fees. fee_fits f"
  shows "encode_v3_path tokens fees = Inr (path_layout tokens fees)"
proof -
  have "tokens \<noteq> []" using assms(1) by auto
  then have l: "token_bytes (last tokens) = Inr (address_raw (last tokens))"
    using assms(2) by (simp add: token_bytes_address)
  have "and_then (encode_loop tokens fees 0 (length fees) [])
          (\<lambda>p. Inr (p @ address_raw (last tokens)))
      = Inr ([] @ path_layout (drop 0 tokens) (drop 0 fees))"
    using assms by (intro encode_loop_layout) simp_all
  then show ?thesis
    by (simp add: encode_v3_path_unfold [OF assms(1)] l and_then_def)
qed

lemma tokens_checked:
  assumes "length tokens = Suc (length fees)"
  shows "(\<exists>t\<in>set tokens. \<not> is_address t)
       = ((\<exists>j<length fees. \<not> is_address (tokens ! j)) \<or> \<not> is_address (last tokens))"
proof -
  have ne: "tokens \<noteq> []" using assms by auto
  have lb: "length (butlast tokens) = length fees" using assms by simp
  have "set tokens = set (butlast tokens) \<union> {last tokens}"
    using ne by (metis append_butlast_last_id list.simps(15) set_append Un_insert_right
        sup_bot.right_neutral empty_set)
  moreover have "(\<exists>t\<in>set (butlast tokens). \<not> is_address t)
      = (\<exists>j<length fees. \<not> is_address (tokens ! j))"
  proof -
    have "(\<exists>t\<in>set (butlast tokens). \<not> is_address t)
        = (\<exists>j<length (butlast tokens). \<not> is_address (butlast tokens ! j))"
      by (metis in_set_conv_nth)
    also have "\<dots> = (\<exists>j<length fees. \<not> is_address (tokens ! j))"
      using lb by (auto simp: nth_butlast)
    finally show ?thesis .
  qed
  ultimately show ?thesis by auto
qed

lemma fees_checked:
  "(\<exists>f\<in>set fees. \<not> fee_fits f) = (\<exists>j<length fees. \<not> fee_fits (fees ! j))"
  by (metis in_set_conv_nth)

lemma encode_v3_path_fails:
  assumes "length tokens = Suc (length fees)"
  shows "(\<exists>e. encode_v3_path tokens fees = Inl e)
       = ((\<exists>t\<in>set tokens. \<not> is_address t) \<or> (\<exists>f\<in>set fees. \<not> fee_fits f))"
proof (cases "(\<exists>t\<in>set tokens. \<not> is_address t) \<or> (\<exists>f\<in>set fees. \<not> fee_fits f)")
  case False
  then have "encode_v3_path tokens fees = Inr (path_layout tokens fees)"
    using assms by (intro encode_v3_path_ok) auto
  then show ?thesis using False by simp
next
  case True
  have lf: "(\<exists>e. encode_loop tokens fees 0 (length fees) [] = Inl e)
      = (\<exists>j. 0 \<le> j \<and> j < length fees
          \<and> (\<not> is_address (tokens ! j) \<or> \<not> fee_fits (fees ! j)))"
    using assms by (intro encode_loop_fails) simp_all
  have "\<exists>e. encode_v3_path tokens fees = Inl e"
  proof (cases "encode_loop tokens fees 0 (length fees) []")
    case (Inl e)
    then show ?thesis by (simp add: encode_v3_path_unfold [OF assms] and_then_def)
  next
    case (Inr p)
    then have "\<not> (\<exists>j<length fees. \<not> is_address (tokens ! j) \<or> \<not> fee_fits (fees ! j))"
      using lf by auto
    then have "\<not> is_address (last tokens)"
      using True tokens_checked [OF assms] fees_checked [of fees] by blast
    then show ?thesis
      by (simp add: encode_v3_path_unfold [OF assms] Inr and_then_def token_bytes_invalid)
  qed
  then show ?thesis using True by simp
qed

lemma encode_v3_path_error:
  assumes "encode_v3_path tokens fees = Inl e"
  shows "(e = ValueError ''fees length must equal tokens length - 1''
            \<and> int (length fees) \<noteq> int (length tokens) - 1)
       \<or> (e = ValueError ''not a hex address'' \<and> (\<exists>t\<in>set tokens. \<not> is_address t))
       \<or> (e = OverflowError \<and> (\<exists>f\<in>set fees. \<not> fee_fits f))"
proof (cases "int (length fees) \<noteq> int (length tokens) - 1")
  case True
  then show ?thesis using assms by (simp add: encode_v3_path_length_error)
next
  case False
  then have len: "length tokens = Suc (length fees)" by arith
  then have ne: "tokens \<noteq> []" by auto
  show ?thesis
  proof (cases "encode_loop tokens fees 0 (length fees) []")
    case (Inl e')
    have "e = e'"
      using assms Inl by (simp add: encode_v3_path_unfold [OF len] and_then_def)
    then have "encode_loop tokens fees 0 (length fees) [] = Inl e" using Inl by simp
    then have "(e = OverflowError \<and> (\<exists>f\<in>set fees. \<not> fee_fits f))
        \<or> (e = ValueError ''not a hex address'' \<and> (\<exists>t\<in>set tokens. \<not> is_address t))"
      using len by (intro encode_loop_error [of tokens fees 0 "length fees" "[]"]) simp_all
    then show ?thesis by blast
  next
    case (Inr p)
    show ?thesis
    proof (cases "is_address (last tokens)")
      case True
      then show ?thesis
        using assms Inr
        by (simp add: encode_v3_path_unfold [OF len] and_then_def token_bytes_address)
    next
      case False
      then have "e = ValueError ''not a hex address''"
        using assms Inr
        by (simp add: encode_v3_path_unfold [OF len] and_then_def token_bytes_invalid)
      moreover have "\<exists>t\<in>set tokens. \<not> is_address t" using False ne last_in_set by blast
      ultimately show ?thesis by blast
    qed
  qed
qed

lemma path_layout_concat:
  "length ts = length fs \<Longrightarrow>
     path_layout (t0 # ts) fs
       = concat (map (\<lambda>(t, f). address_raw t @ fee_be3 f) (zip (butlast (t0 # ts)) fs))
         @ address_raw (last (t0 # ts))"
proof (induction ts fs arbitrary: t0 rule: list_induct2)
  case Nil
  then show ?case by simp
next
  case (Cons t ts f fs)
  then show ?case by simp
qed

lemma path_layout_head:
  "\<exists>rest. path_layout (t # ts) fs = address_raw t @ rest"
  by (cases ts; cases fs) simp_all

lemma length_path_layout:
  "length ts = length fs \<Longrightarrow> \<forall>t\<in>set (t0 # ts). length (address_raw t) = 20 \<Longrightarrow>
     length (path_layout (t0 # ts) fs) = 20 + 23 * length fs"
proof (induction ts fs arbitrary: t0 rule: list_induct2)
  case Nil
  then show ?case by simp
next
  case (Cons t ts f fs)
  have "length (path_layout (t # ts) fs) = 20 + 23 * length fs"
    using Cons.prems by (intro Cons.IH) simp
  then show ?case using Cons.prems by (simp add: fee_be3_def)
qed

lemma decode_hops_layout:
  "length ts = length fs \<Longrightarrow> \<forall>t\<in>set (t0 # ts). length (address_raw t) = 20 \<Longrightarrow>
     \<forall>f\<in>set fs. fee_fits f \<Longrightarrow>
     decode_hops (length fs) (drop 20 (path_layout (t0 # ts) fs)) = (map address_raw ts, fs)"
proof (induction ts fs arbitrary: t0 rule: list_induct2)
  case Nil
  then show ?case by simp
next
  case (Cons t ts f fs)
  obtain rest where r: "path_layout (t # ts) fs = address_raw t @ rest"
    using path_layout_head by blast
  have l0: "length (address_raw t0) = 20" and l: "length (address_raw t) = 20"
    using Cons.prems(1) by simp_all
  have ih: "decode_hops (length fs) (drop 20 (path_layout (t # ts) fs))
      = (map address_raw ts, fs)"
    using Cons.prems by (intro Cons.IH) simp_all
  have f: "be3_value (fee_be3 f) = f"
    using Cons.prems(2) by (intro be3_roundtrip) (simp_all add: fee_fits_def)
  have l3: "length (fee_be3 f) = 3" by (simp add: fee_be3_def)
  have d: "drop 20 (path_layout (t0 # t # ts) (f # fs)) = fee_be3 f @ path_layout (t # ts) fs"
    using l0 by simp
  have t3: "take 3 (fee_be3 f @ path_layout (t # ts) fs) = fee_be3 f"
    using l3 by simp
  have d3: "drop 3 (fee_be3 f @ path_layout (t # ts) fs) = path_layout (t # ts) fs"
    using l3 by simp
  have d23: "drop 23 (fee_be3 f @ path_layout (t # ts) fs) = drop 20 (path_layout (t # ts) fs)"
    using l3 by simp
  have t20: "take 20 (path_layout (t # ts) fs) = address_raw t"
    using l by (simp add: r)
  show ?case
    by (simp only: d length_Cons decode_hops.simps t3 d3 d23 t20 ih f Let_def prod.case
        list.map)
qed

lemma decode_v3_path_layout:
  assumes "length ts = length fs" "\<forall>t\<in>set (t0 # ts). length (address_raw t) = 20"
    "\<forall>f\<in>set fs. fee_fits f"
  shows "decode_v3_path (path_layout (t0 # ts) fs) = (map address_raw (t0 # ts), fs)"
proof -
  obtain rest where r: "path_layout (t0 # ts) fs = address_raw t0 @ rest"
    using path_layout_head by blast
  have l0: "length (address_raw t0) = 20" using assms(2) by simp
  have t20: "take 20 (path_layout (t0 # ts) fs) = address_raw t0"
    using l0 by (simp add: r)
  have n: "(length (path_layout (t0 # ts) fs) - 20) div 23 = length fs"
    using length_path_layout [OF assms(1,2)] by simp
  show ?thesis
    by (simp add: decode_v3_path_def n decode_hops_layout [OF assms] t20)
qed

lemma example_is_address: "is_address token_a" "is_address token_b"
  by (simp_all add: is_address_def remove_0x_prefix_def is_hex_digit_def token_a_def token_b_def)

text \<open>
  Claim C3, as the code has it. For at least two token addresses, as many fee tiers as
  there are tokens but one, and every fee tier from 0 to \<open>2^24 - 1\<close>, \<open>encode_v3_path\<close>
  returns the concatenation, in order, of each token's 20 raw bytes followed by its fee
  tier in three big-endian bytes, ending with the 20 bytes of the last token. Its length is
  20 times the number of tokens plus 3 times the number of tiers, and decoding it gives
  back the tokens' bytes and the tiers.
\<close>

theorem encode_v3_path_route:
  assumes "2 \<le> length tokens" and "length fees = length tokens - 1"
    and "\<forall>t\<in>set tokens. is_address t" and "\<forall>f\<in>set fees. fee_fits f"
  shows "encode_v3_path tokens fees = Inr (path_layout tokens fees)
       \<and> path_layout tokens fees
           = concat (map (\<lambda>(t, f). address_raw t @ fee_be3 f) (zip (butlast tokens) fees))
             @ address_raw (last tokens)
       \<and> (\<forall>t\<in>set tokens. length (address_raw t) = 20)
       \<and> (\<forall>f\<in>set fees. length (fee_be3 f) = 3 \<and> be3_value (fee_be3 f) = f)
       \<and> length (path_layout tokens fees) = 20 * length tokens + 3 * (length tokens - 1)
       \<and> decode_v3_path (path_layout tokens fees) = (map address_raw tokens, fees)"
proof -
  obtain t0 ts where tk: "tokens = t0 # ts" using assms(1) by (cases tokens) auto
  have len: "length ts = length fees" using assms(2) tk by simp
  have len': "length tokens = Suc (length fees)" using len tk by simp
  have raw: "\<forall>t\<in>set tokens. length (address_raw t) = 20"
    using assms(3) token_bytes_address(2) by blast
  have r0: "\<forall>t\<in>set (t0 # ts). length (address_raw t) = 20" using raw tk by simp
  have c1: "encode_v3_path tokens fees = Inr (path_layout tokens fees)"
    using len' assms(3,4) by (rule encode_v3_path_ok)
  have c2: "path_layout tokens fees
           = concat (map (\<lambda>(t, f). address_raw t @ fee_be3 f) (zip (butlast tokens) fees))
             @ address_raw (last tokens)"
    unfolding tk using len by (rule path_layout_concat)
  have c4: "\<forall>f\<in>set fees. length (fee_be3 f) = 3 \<and> be3_value (fee_be3 f) = f"
  proof
    fix f assume "f \<in> set fees"
    then have "fee_fits f" using assms(4) by blast
    then have "be3_value (fee_be3 f) = f" by (intro be3_roundtrip) (simp_all add: fee_fits_def)
    then show "length (fee_be3 f) = 3 \<and> be3_value (fee_be3 f) = f" by (simp add: fee_be3_def)
  qed
  have "length (path_layout (t0 # ts) fees) = 20 + 23 * length fees"
    using len r0 by (rule length_path_layout)
  then have c5: "length (path_layout tokens fees) = 20 * length tokens + 3 * (length tokens - 1)"
    using len tk by simp
  have c6: "decode_v3_path (path_layout tokens fees) = (map address_raw tokens, fees)"
    unfolding tk using len r0 assms(4) by (rule decode_v3_path_layout)
  show ?thesis
    by (rule conjI, rule c1, rule conjI, rule c2, rule conjI, rule raw, rule conjI, rule c4,
        rule conjI, rule c5, rule c6)
qed

text \<open>
  Two token addresses with the fee tier \<open>2^24\<close>, or with the fee tier -1, are not encoded:
  the conversion of the tier to three bytes raises.
\<close>

theorem encode_v3_path_fee_range_counterexample:
  "is_address token_a \<and> is_address token_b
   \<and> encode_v3_path [token_a, token_b] [16777216] = Inl OverflowError
   \<and> encode_v3_path [token_a, token_b] [- 1] = Inl OverflowError"
  by (simp add: example_is_address encode_v3_path_def py_nth_def and_then_def
      token_bytes_address to_bytes_3_big_def)

theorem encode_v3_path_route_witness:
  "encode_v3_path [token_a, token_b] [3000] = Inr (path_layout [token_a, token_b] [3000])
   \<and> path_layout [token_a, token_b] [3000]
       = address_raw token_a @ [0, 11, 184] @ address_raw token_b
   \<and> length (path_layout [token_a, token_b] [3000]) = 43
   \<and> decode_v3_path (path_layout [token_a, token_b] [3000])
       = ([address_raw token_a, address_raw token_b], [3000])
   \<and> length (path_layout [token_a, token_b, token_a] [500, 3000]) = 66"
proof -
  have h: "2 \<le> length [token_a, token_b]" "length [3000 :: int] = length [token_a, token_b] - 1"
    "\<forall>t\<in>set [token_a, token_b]. is_address t" "\<forall>f\<in>set [3000]. fee_fits f"
    by (simp_all add: example_is_address fee_fits_def)
  have h3: "2 \<le> length [token_a, token_b, token_a]"
    "length [500 :: int, 3000] = length [token_a, token_b, token_a] - 1"
    "\<forall>t\<in>set [token_a, token_b, token_a]. is_address t" "\<forall>f\<in>set [500, 3000]. fee_fits f"
    by (simp_all add: example_is_address fee_fits_def)
  have b: "fee_be3 3000 = [0, 11, 184]" by (simp add: fee_be3_def)
  show ?thesis
    using encode_v3_path_route [OF h] encode_v3_path_route [OF h3] b by simp
qed

text \<open>
  Claim C4, as the code has it. \<open>encode_v3_path\<close> is a function of its arguments; it fails
  exactly when the number of fee tiers is not the number of tokens minus 1 (so also on an
  empty token list), or a token is not an address, or a fee tier is outside 0 to
  \<open>2^24 - 1\<close>. The error is a \<^verbatim>\<open>ValueError\<close> for the first two causes and an
  \<^verbatim>\<open>OverflowError\<close> for the third, and what it returns when it does not fail is the layout
  of the route. Fewer than two tokens is not a cause of its own: one token with no fee
  tier is encoded as its 20 bytes.
\<close>

theorem encode_v3_path_failure:
  "((\<exists>e. encode_v3_path tokens fees = Inl e)
      = (int (length fees) \<noteq> int (length tokens) - 1
         \<or> (\<exists>t\<in>set tokens. \<not> is_address t) \<or> (\<exists>f\<in>set fees. \<not> fee_fits f)))
   \<and> (int (length fees) \<noteq> int (length tokens) - 1 \<longrightarrow>
        encode_v3_path tokens fees
          = Inl (ValueError ''fees length must equal tokens length - 1''))
   \<and> (\<forall>e. encode_v3_path tokens fees = Inl e \<longrightarrow>
        ((\<exists>msg. e = ValueError msg)
           \<and> (int (length fees) \<noteq> int (length tokens) - 1
               \<or> (\<exists>t\<in>set tokens. \<not> is_address t)))
        \<or> (e = OverflowError \<and> (\<exists>f\<in>set fees. \<not> fee_fits f)))
   \<and> (\<forall>p. encode_v3_path tokens fees = Inr p \<longrightarrow> p = path_layout tokens fees)"
proof -
  have a: "(\<exists>e. encode_v3_path tokens fees = Inl e)
      = (int (length fees) \<noteq> int (length tokens) - 1
         \<or> (\<exists>t\<in>set tokens. \<not> is_address t) \<or> (\<exists>f\<in>set fees. \<not> fee_fits f))"
  proof (cases "int (length fees) \<noteq> int (length tokens) - 1")
    case True
    then show ?thesis by (simp add: encode_v3_path_length_error)
  next
    case False
    then have "length tokens = Suc (length fees)" by arith
    then show ?thesis using False by (simp add: encode_v3_path_fails)
  qed
  have b: "int (length fees) \<noteq> int (length tokens) - 1 \<longrightarrow>
        encode_v3_path tokens fees
          = Inl (ValueError ''fees length must equal tokens length - 1'')"
    by (simp add: encode_v3_path_length_error)
  have c: "\<forall>e. encode_v3_path tokens fees = Inl e \<longrightarrow>
        ((\<exists>msg. e = ValueError msg)
           \<and> (int (length fees) \<noteq> int (length tokens) - 1
               \<or> (\<exists>t\<in>set tokens. \<not> is_address t)))
        \<or> (e = OverflowError \<and> (\<exists>f\<in>set fees. \<not> fee_fits f))"
  proof (intro allI impI)
    fix e assume "encode_v3_path tokens fees = Inl e"
    from encode_v3_path_error [OF this]
    show "((\<exists>msg. e = ValueError msg)
           \<and> (int (length fees) \<noteq> int (length tokens) - 1
               \<or> (\<exists>t\<in>set tokens. \<not> is_address t)))
        \<or> (e = OverflowError \<and> (\<exists>f\<in>set fees. \<not> fee_fits f))"
      by blast
  qed
  have d: "\<forall>p. encode_v3_path tokens fees = Inr p \<longrightarrow> p = path_layout tokens fees"
  proof (intro allI impI)
    fix p assume p: "encode_v3_path tokens fees = Inr p"
    then have "\<not> (\<exists>e. encode_v3_path tokens fees = Inl e)" by simp
    then have g: "int (length fees) = int (length tokens) - 1"
      "\<forall>t\<in>set tokens. is_address t" "\<forall>f\<in>set fees. fee_fits f"
      using a by blast+
    from g(1) have "length tokens = Suc (length fees)" by arith
    then have "encode_v3_path tokens fees = Inr (path_layout tokens fees)"
      using g(2,3) by (rule encode_v3_path_ok)
    then show "p = path_layout tokens fees" using p by simp
  qed
  show ?thesis by (rule conjI, rule a, rule conjI, rule b, rule conjI, rule c, rule d)
qed

text \<open>
  One token with no fee tier is fewer than two tokens and is encoded; two addresses with
  the fee tier \<open>2^24\<close> have the right counts and addresses and are not.
\<close>

theorem encode_v3_path_single_token_counterexample:
  "encode_v3_path [token_a] [] = Inr (address_raw token_a)
   \<and> length (address_raw token_a) = 20
   \<and> is_address token_a \<and> is_address token_b
   \<and> encode_v3_path [token_a, token_b] [16777216] = Inl OverflowError"
  by (simp add: example_is_address encode_v3_path_def py_nth_def py_last_def and_then_def
      token_bytes_address to_bytes_3_big_def)

theorem encode_v3_path_failure_witness:
  "\<not> (\<exists>e. encode_v3_path [token_a, token_b] [3000] = Inl e)
   \<and> encode_v3_path [token_a, token_b] [3000] = Inr (path_layout [token_a, token_b] [3000])
   \<and> encode_v3_path [token_a] [3000]
       = Inl (ValueError ''fees length must equal tokens length - 1'')
   \<and> encode_v3_path [] [] = Inl (ValueError ''fees length must equal tokens length - 1'')
   \<and> (\<exists>msg. encode_v3_path [''0x12'', token_b] [3000] = Inl (ValueError msg))
   \<and> encode_v3_path [token_a, token_b] [- 1] = Inl OverflowError
   \<and> \<not> (\<exists>e. encode_v3_path [token_a] [] = Inl e)"
proof -
  have n: "\<not> is_address ''0x12''" by (simp add: is_address_def remove_0x_prefix_def)
  have f: "fee_fits 3000" "\<not> fee_fits (- 1)" by (simp_all add: fee_fits_def)
  note t1 = encode_v3_path_failure [of "[token_a, token_b]" "[3000]"]
  note t2 = encode_v3_path_failure [of "[token_a]" "[3000]"]
  note t3 = encode_v3_path_failure [of "[]" "[]"]
  note t4 = encode_v3_path_failure [of "[''0x12'', token_b]" "[3000]"]
  note t5 = encode_v3_path_failure [of "[token_a, token_b]" "[- 1]"]
  note t6 = encode_v3_path_failure [of "[token_a]" "[]"]
  have r1: "\<not> (\<exists>e. encode_v3_path [token_a, token_b] [3000] = Inl e)"
    using t1 [THEN conjunct1] by (simp add: example_is_address f)
  then obtain p where p: "encode_v3_path [token_a, token_b] [3000] = Inr p"
    by (cases "encode_v3_path [token_a, token_b] [3000]") auto
  have r2: "encode_v3_path [token_a, token_b] [3000] = Inr (path_layout [token_a, token_b] [3000])"
    using t1 [THEN conjunct2, THEN conjunct2, THEN conjunct2, rule_format, OF p] p by simp
  have r3: "encode_v3_path [token_a] [3000]
       = Inl (ValueError ''fees length must equal tokens length - 1'')"
    using t2 [THEN conjunct2, THEN conjunct1] by simp
  have r4: "encode_v3_path [] [] = Inl (ValueError ''fees length must equal tokens length - 1'')"
    using t3 [THEN conjunct2, THEN conjunct1] by simp
  have "\<exists>e. encode_v3_path [''0x12'', token_b] [3000] = Inl e"
    using t4 [THEN conjunct1] n by simp
  then obtain e where e: "encode_v3_path [''0x12'', token_b] [3000] = Inl e" by blast
  have "\<exists>msg. e = ValueError msg"
    using t4 [THEN conjunct2, THEN conjunct2, THEN conjunct1, rule_format, OF e] f by simp
  then have r5: "\<exists>msg. encode_v3_path [''0x12'', token_b] [3000] = Inl (ValueError msg)"
    using e by blast
  have "\<exists>e. encode_v3_path [token_a, token_b] [- 1] = Inl e"
    using t5 [THEN conjunct1] f by simp
  then obtain e' where e': "encode_v3_path [token_a, token_b] [- 1] = Inl e'" by blast
  have "e' = OverflowError"
    using t5 [THEN conjunct2, THEN conjunct2, THEN conjunct1, rule_format, OF e']
    by (simp add: example_is_address)
  then have r6: "encode_v3_path [token_a, token_b] [- 1] = Inl OverflowError" using e' by simp
  have r7: "\<not> (\<exists>e. encode_v3_path [token_a] [] = Inl e)"
    using t6 [THEN conjunct1] by (simp add: example_is_address)
  show ?thesis using r1 r2 r3 r4 r5 r6 r7 by simp
qed

end
